theory Spec2Isabelle
  imports Complex_Main
begin

section \<open>Data model of the genotype-phenotype map\<close>

text \<open>
  The exceptions raised by \<^verbatim>\<open>seqspace/gpm.py\<close> and by the numpy and
  dictionary operations it performs, as values.
  \<^item> \<open>LengthMismatch\<close>: \<^verbatim>\<open>ValueError("Number of phenotypes does not equal number of genotypes.")\<close>
  \<^item> \<open>KeyError k\<close>: a dictionary lookup of the absent key \<open>k\<close>
  \<^item> \<open>IndexError\<close>: an index outside an array, or too many indices for its dimension
  \<^item> \<open>AttributeError\<close>: an attribute read on an object that does not have it
  \<^item> \<open>NegativeDimensions\<close>: numpy's \<^verbatim>\<open>ValueError\<close> for \<^verbatim>\<open>np.empty\<close> with a negative size
  \<^item> \<open>FractionInvalid\<close>: \<^verbatim>\<open>Exception("fraction is invalid.")\<close>
  \<^item> \<open>NoSampleError\<close>: \<^verbatim>\<open>Exception("Won't create samples if sample error is not given.")\<close>
  \<^item> \<open>RawMapMissing\<close>: \<^verbatim>\<open>Exception("A RawMap must be initialized ...")\<close>
\<close>

datatype error =
    LengthMismatch
  | KeyError string
  | IndexError
  | AttributeError
  | NegativeDimensions
  | FractionInvalid
  | NoSampleError
  | RawMapMissing

text \<open>
  The two uncertainty views are classes of \<^verbatim>\<open>seqspace.errors\<close>, outside the
  sources at hand. A view is modelled by the arguments its constructor is called with, in
  the order \<open>phenotypes\<close>, \<open>stdeviations\<close>, \<open>log_transform\<close>,
  (\<open>n_replicates\<close>,) \<open>logbase\<close>: what a view is built from is then what it is.
\<close>

datatype errmap =
    StandardDeviationMap "real list" "real list" bool "real \<Rightarrow> real"
  | StandardErrorMap "real list" "real list" bool int "real \<Rightarrow> real"

text \<open>
  A mutation dictionary: site number to alphabet, as the list of its items (the code takes
  its \<^verbatim>\<open>len\<close>); a site is looked up with \<open>map_of\<close>.
\<close>

type_synonym mutations = "(nat \<times> string) list"

text \<open>
  \<^verbatim>\<open>RawMap\<close>, \<^verbatim>\<open>BinaryMap\<close> and \<^verbatim>\<open>MutationMap\<close> are used by the map as
  holders of attributes. An attribute that may not have been assigned yet is an
  \<open>option\<close>; \<open>raw_stdeviations\<close> can moreover be assigned Python's \<^verbatim>\<open>None\<close>.
\<close>

record RawMap =
  raw_genotypes :: "string list"
  raw_phenotypes :: "real list"
  raw_stdeviations :: "real list option option"
  raw_std :: "errmap option"
  raw_err :: "errmap option"

record BinaryMap =
  bin_phenotypes :: "real list"
  bin_std :: "errmap option"
  bin_err :: "errmap option"

record MutationMap =
  mm_mutations :: "mutations option"
  mm_wildtype :: "string option"
  mm_n :: "nat option"

text \<open>
  The state of a \<^verbatim>\<open>GenotypePhenotypeMap\<close>. Field \<open>gpm_x\<close> is the attribute
  \<^verbatim>\<open>_x\<close> (or \<^verbatim>\<open>x\<close>) of the object. \<open>gpm_Raw\<close>, \<open>gpm_Binary\<close>, \<open>gpm_std\<close>
  and \<open>gpm_err\<close> are tested with \<^verbatim>\<open>hasattr\<close> or read inside \<^verbatim>\<open>try\<close>, so
  their absence is a value.
\<close>

record gpm =
  gpm_mutations :: mutations
  gpm_Mutations :: MutationMap
  gpm_logbase :: "real \<Rightarrow> real"
  gpm_wildtype :: string
  gpm_n :: nat
  gpm_length :: nat
  gpm_genotypes :: "string list"
  gpm_indices :: "nat list"
  gpm_log_transform :: bool
  gpm_phenotypes :: "real list"
  gpm_Raw :: "RawMap option"
  gpm_n_replicates :: int
  gpm_Binary :: "BinaryMap option"
  gpm_missing_genotypes :: "string list"
  gpm_stdeviations :: "real list option"
  gpm_std :: "errmap option"
  gpm_err :: "errmap option"

text \<open>
  The argument of the \<^verbatim>\<open>phenotypes\<close> setter: the setter branches on
  \<^verbatim>\<open>type(phenotypes) is dict\<close>.
\<close>

datatype pheno_arg = PArray "real list" | PDict "string \<rightharpoonup> real"

section \<open>The phenotypes setter\<close>

text \<open>
  \<^verbatim>\<open>BaseMap._if_dict\<close>: for \<open>i\<close> in \<^verbatim>\<open>range(self._n)\<close>, the dictionary is read at
  \<^verbatim>\<open>self._genotypes[i]\<close>. The array read and the dictionary read both may raise.
\<close>

fun if_dict_elements :: "string list \<Rightarrow> (string \<rightharpoonup> real) \<Rightarrow> nat list \<Rightarrow> error + real list" where
  "if_dict_elements gs d [] = Inr []"
| "if_dict_elements gs d (i # js) =
     (if length gs \<le> i then Inl IndexError
      else case d (gs ! i) of
        None \<Rightarrow> Inl (KeyError (gs ! i))
      | Some v \<Rightarrow>
          (case if_dict_elements gs d js of
             Inl e \<Rightarrow> Inl e
           | Inr vs \<Rightarrow> Inr (v # vs)))"

definition if_dict :: "gpm \<Rightarrow> (string \<rightharpoonup> real) \<Rightarrow> error + real list" where
  "if_dict g d = if_dict_elements (gpm_genotypes g) d [0..<gpm_n g]"

text \<open>Lines 319 to 325 of the setter: the argument resolved into an array.\<close>

definition resolve_phenotypes :: "gpm \<Rightarrow> pheno_arg \<Rightarrow> error + real list" where
  "resolve_phenotypes g arg =
     (case arg of
        PDict d \<Rightarrow> if_dict g d
      | PArray ps \<Rightarrow>
          if length ps \<noteq> length (gpm_genotypes g) then Inl LengthMismatch
          else Inr ps)"

text \<open>
  Lines 327 to 340: under \<open>log_transform\<close> a fresh \<^verbatim>\<open>RawMap\<close> takes the
  genotypes and the resolved phenotypes and the map keeps \<^verbatim>\<open>logbase\<close> of them
  (\<^verbatim>\<open>logbase\<close> is a numpy function, applied to each entry); an existing binary view
  is given the map's phenotypes.
\<close>

definition new_RawMap :: "string list \<Rightarrow> real list \<Rightarrow> RawMap" where
  "new_RawMap gs ps =
     \<lparr>raw_genotypes = gs, raw_phenotypes = ps, raw_stdeviations = None,
      raw_std = None, raw_err = None\<rparr>"

definition store_phenotypes :: "real list \<Rightarrow> gpm \<Rightarrow> gpm" where
  "store_phenotypes ps g =
     (let g1 = (if gpm_log_transform g
                then g\<lparr>gpm_Raw := Some (new_RawMap (gpm_genotypes g) ps),
                       gpm_phenotypes := map (gpm_logbase g) ps\<rparr>
                else g\<lparr>gpm_phenotypes := ps\<rparr>)
      in case gpm_Binary g1 of
           None \<Rightarrow> g1
         | Some b \<Rightarrow> g1\<lparr>gpm_Binary := Some (b\<lparr>bin_phenotypes := gpm_phenotypes g1\<rparr>)\<rparr>)"

definition phenotypes_setter :: "pheno_arg \<Rightarrow> gpm \<Rightarrow> error + gpm" where
  "phenotypes_setter arg g =
     (case resolve_phenotypes g arg of
        Inl e \<Rightarrow> Inl e
      | Inr ps \<Rightarrow> Inr (store_phenotypes ps g))"

section \<open>The other setters\<close>

text \<open>
  The \<^verbatim>\<open>genotypes\<close> setter assigns \<^verbatim>\<open>_n\<close> first and then reads
  \<^verbatim>\<open>genotypes[0]\<close>, which raises on an empty array: the object then keeps the new
  \<^verbatim>\<open>_n\<close> and nothing else, so the setter returns the error beside the state.
\<close>

definition genotypes_setter :: "string list \<Rightarrow> gpm \<Rightarrow> error option \<times> gpm" where
  "genotypes_setter genotypes g =
     (let g1 = g\<lparr>gpm_n := length genotypes\<rparr>
      in case genotypes of
           [] \<Rightarrow> (Some IndexError, g1)
         | first # _ \<Rightarrow>
             (None, g1\<lparr>gpm_length := length first,
                       gpm_genotypes := genotypes,
                       gpm_indices := [0..<gpm_n g1]\<rparr>))"

definition log_transform_setter :: "bool \<Rightarrow> gpm \<Rightarrow> gpm" where
  "log_transform_setter boolean g = g\<lparr>gpm_log_transform := boolean\<rparr>"

definition wildtype_setter :: "string \<Rightarrow> gpm \<Rightarrow> gpm" where
  "wildtype_setter wildtype g =
     g\<lparr>gpm_wildtype := wildtype,
       gpm_Mutations := (gpm_Mutations g)\<lparr>mm_wildtype := Some wildtype\<rparr>\<rparr>"

text \<open>
  The \<^verbatim>\<open>mutations\<close> setter; its \<^verbatim>\<open>TypeError\<close> for an argument that is not a
  dictionary cannot arise for an argument of type \<open>mutations\<close>.
\<close>

definition mutations_setter :: "mutations \<Rightarrow> gpm \<Rightarrow> gpm" where
  "mutations_setter mutations g =
     g\<lparr>gpm_mutations := mutations,
       gpm_Mutations := \<lparr>mm_mutations = Some mutations, mm_wildtype = None,
                          mm_n = Some (length mutations)\<rparr>\<rparr>"

definition n_replicates_setter :: "int \<Rightarrow> gpm \<Rightarrow> gpm" where
  "n_replicates_setter n_replicates g = g\<lparr>gpm_n_replicates := n_replicates\<rparr>"

definition complete_genotypes :: "gpm \<Rightarrow> string list" where
  "complete_genotypes g = gpm_genotypes g @ gpm_missing_genotypes g"

text \<open>One assignment to a property of the map, and what it does to the object.\<close>

datatype setter_call =
    SetGenotypes "string list"
  | SetPhenotypes pheno_arg
  | SetWildtype string
  | SetMutations mutations
  | SetLogTransform bool
  | SetNReplicates int

fun assign :: "setter_call \<Rightarrow> gpm \<Rightarrow> error option \<times> gpm" where
  "assign (SetGenotypes genotypes) g = genotypes_setter genotypes g"
| "assign (SetPhenotypes arg) g =
     (case phenotypes_setter arg g of Inl e \<Rightarrow> (Some e, g) | Inr g' \<Rightarrow> (None, g'))"
| "assign (SetWildtype wildtype) g = (None, wildtype_setter wildtype g)"
| "assign (SetMutations mutations) g = (None, mutations_setter mutations g)"
| "assign (SetLogTransform boolean) g = (None, log_transform_setter boolean g)"
| "assign (SetNReplicates n_replicates) g = (None, n_replicates_setter n_replicates g)"

section \<open>The sequence utilities\<close>

text \<open>
  Modelled from the spec: \<^verbatim>\<open>hamming_distance\<close> of \<^verbatim>\<open>seqspace.utils\<close>, which is
  not among the sources: the number of sites at which two sequences differ.
\<close>

definition hamming_distance :: "string \<Rightarrow> string \<Rightarrow> nat" where
  "hamming_distance a b = length (filter (\<lambda>(x, y). x \<noteq> y) (zip a b))"

text \<open>
  Modelled from the spec: \<^verbatim>\<open>farthest_genotype\<close> of \<^verbatim>\<open>seqspace.utils\<close>, which is
  not among the sources: the single farthest genotype from the wildtype by Hamming
  distance over the observed set. The spec names no genotype for an empty set (here
  \<open>None\<close>) and no choice among equally far genotypes (here the first).
\<close>

fun farthest_from :: "string \<Rightarrow> string \<Rightarrow> string list \<Rightarrow> string" where
  "farthest_from reference mutant [] = mutant"
| "farthest_from reference mutant (genotype # rest) =
     farthest_from reference
       (if hamming_distance genotype reference > hamming_distance mutant reference
        then genotype else mutant) rest"

definition farthest_genotype :: "string \<Rightarrow> string list \<Rightarrow> string option" where
  "farthest_genotype reference genotypes =
     (case genotypes of
        [] \<Rightarrow> None
      | first # rest \<Rightarrow> Some (farthest_from reference first rest))"

text \<open>
  Modelled from the spec: \<^verbatim>\<open>binary_mutations_map\<close> of \<^verbatim>\<open>seqspace.utils\<close>, which
  is not among the sources: the binary alphabet between two sequences, site by site, the
  first sequence's symbol first (the spec's example gives \<^verbatim>\<open>{0: ["A","T"], 1: ["A","T"]}\<close>
  for \<^verbatim>\<open>"AA"\<close> and \<^verbatim>\<open>"TT"\<close>). The alphabet of a site holds the symbols allowed
  there, so a site where the two agree, or that the second sequence does not have, allows
  the first sequence's symbol only.
\<close>

fun site_alphabets :: "string \<Rightarrow> string \<Rightarrow> string list" where
  "site_alphabets [] b = []"
| "site_alphabets (x # a) [] = [x] # site_alphabets a []"
| "site_alphabets (x # a) (y # b) =
     (if x = y then [x] else [x, y]) # site_alphabets a b"

definition binary_mutations_map :: "string \<Rightarrow> string \<Rightarrow> mutations" where
  "binary_mutations_map wildtype mutant =
     zip [0..<length wildtype] (site_alphabets wildtype mutant)"

text \<open>
  Modelled from the spec: \<^verbatim>\<open>encode_mutations\<close> and \<^verbatim>\<open>construct_genotypes\<close> of
  \<^verbatim>\<open>seqspace.utils\<close>, which are not among the sources. The encoding lists the
  alphabet of every site of the wildtype (a site without an entry keeps the wildtype's
  symbol); the genotypes constructed from it are all the sequences that take one symbol of
  its alphabet at each site. Their order is the model's choice; the binary strings that
  \<^verbatim>\<open>construct_genotypes\<close> returns beside them are not modelled.
\<close>

definition encode_mutations :: "string \<Rightarrow> mutations \<Rightarrow> string list" where
  "encode_mutations wildtype mutations =
     map (\<lambda>site. case map_of mutations site of
                   None \<Rightarrow> [wildtype ! site]
                 | Some alphabet \<Rightarrow> alphabet)
         [0..<length wildtype]"

fun construct_genotypes :: "string list \<Rightarrow> string list" where
  "construct_genotypes [] = [[]]"
| "construct_genotypes (alphabet # encoding) =
     concat (map (\<lambda>symbol. map ((#) symbol) (construct_genotypes encoding)) alphabet)"

section \<open>Dictionaries built from two attributes\<close>

text \<open>
  Modelled from the spec: \<^verbatim>\<open>self.map(attr1, attr2)\<close> of \<^verbatim>\<open>seqspace.base\<close>, which is
  not among the sources: the lookup from one attribute of the map to another. It is
  \<open>py_map\<close> at the values of the two attributes, and \<open>py_map\<close> is what
  \<^verbatim>\<open>BaseMap._map(keys, values)\<close> of \<^verbatim>\<open>gpm/base.py\<close> computes: the dictionary of
  the pairs \<^verbatim>\<open>(keys[i], values[i])\<close> for \<open>i\<close> in \<^verbatim>\<open>range(len(keys))\<close>; a later
  pair replaces an earlier one with the same key, and a shorter \<^verbatim>\<open>values\<close> raises.
\<close>

definition py_map :: "'k list \<Rightarrow> 'v list \<Rightarrow> error + ('k \<rightharpoonup> 'v)" where
  "py_map keys values =
     (if length values < length keys then Inl IndexError
      else Inr (map_of (rev (zip keys values))))"

text \<open>\<^verbatim>\<open>[mapping[g] for g in genotypes]\<close>: the first absent key raises.\<close>

fun lookup_all :: "(string \<rightharpoonup> 'v) \<Rightarrow> string list \<Rightarrow> error + 'v list" where
  "lookup_all mapping [] = Inr []"
| "lookup_all mapping (g # gs) =
     (case mapping g of
        None \<Rightarrow> Inl (KeyError g)
      | Some v \<Rightarrow>
          (case lookup_all mapping gs of
             Inl e \<Rightarrow> Inl e
           | Inr vs \<Rightarrow> Inr (v # vs)))"

section \<open>Construction\<close>

text \<open>
  Modelled from the spec: \<^verbatim>\<open>BinaryMap(self)\<close> of \<^verbatim>\<open>seqspace.binary\<close>, which is not
  among the sources: the binary view built with the owning map holds phenotypes that agree
  with the map's, has no uncertainty views yet, and gives the map its
  \<^verbatim>\<open>missing_genotypes\<close>: the genotypes of the complete combinatorial space implied
  by \<^verbatim>\<open>mutations\<close> that are absent from \<^verbatim>\<open>genotypes\<close>.
\<close>

definition new_BinaryMap :: "gpm \<Rightarrow> gpm" where
  "new_BinaryMap g =
     g\<lparr>gpm_Binary := Some \<lparr>bin_phenotypes = gpm_phenotypes g, bin_std = None, bin_err = None\<rparr>,
       gpm_missing_genotypes :=
         filter (\<lambda>s. s \<notin> set (gpm_genotypes g))
           (construct_genotypes (encode_mutations (gpm_wildtype g) (gpm_mutations g)))\<rparr>"

text \<open>
  \<^verbatim>\<open>_construct_errors\<close>, lines 363 to 441. Under \<open>log_transform\<close> the first
  statement of the \<^verbatim>\<open>try\<close> block reads \<^verbatim>\<open>self.Raw\<close>; the
  \<^verbatim>\<open>AttributeError\<close> of a map without one is turned into \<open>RawMapMissing\<close>.
  Without stdeviations the same read is outside any \<^verbatim>\<open>try\<close>.
\<close>

definition construct_errors :: "real list option \<Rightarrow> gpm \<Rightarrow> error + gpm" where
  "construct_errors stdeviations g0 =
     (case stdeviations of
        Some sd \<Rightarrow>
          (let g = g0\<lparr>gpm_stdeviations := Some sd\<rparr>
           in if gpm_log_transform g then
                (case gpm_Raw g of
                   None \<Rightarrow> Inl RawMapMissing
                 | Some raw \<Rightarrow>
                     (let raw1 = raw\<lparr>raw_stdeviations := Some (Some sd),
                                     raw_std := Some (StandardDeviationMap (gpm_phenotypes g) sd
                                                        False (gpm_logbase g)),
                                     raw_err := Some (StandardErrorMap (gpm_phenotypes g) sd
                                                        False (gpm_n_replicates g) (gpm_logbase g))\<rparr>;
                          g1 = g\<lparr>gpm_Raw := Some raw1,
                                 gpm_std := Some (StandardDeviationMap (raw_phenotypes raw1) sd
                                                    (gpm_log_transform g) (gpm_logbase g)),
                                 gpm_err := Some (StandardErrorMap (raw_phenotypes raw1) sd
                                                    (gpm_log_transform g) (gpm_n_replicates g)
                                                    (gpm_logbase g))\<rparr>
                      in Inr (case gpm_Binary g1 of
                                None \<Rightarrow> g1
                              | Some b \<Rightarrow>
                                  g1\<lparr>gpm_Binary := Some (b\<lparr>
                                    bin_std := Some (StandardDeviationMap (raw_phenotypes raw1) sd
                                                       (gpm_log_transform g) (gpm_logbase g)),
                                    bin_err := Some (StandardErrorMap (raw_phenotypes raw1) sd
                                                       (gpm_log_transform g) (gpm_n_replicates g)
                                                       (gpm_logbase g))\<rparr>)\<rparr>)))
              else
                (let g1 = g\<lparr>gpm_std := Some (StandardDeviationMap (gpm_phenotypes g) sd
                                                (gpm_log_transform g) (gpm_logbase g)),
                             gpm_err := Some (StandardErrorMap (gpm_phenotypes g) sd
                                                (gpm_log_transform g) (gpm_n_replicates g)
                                                (gpm_logbase g))\<rparr>
                 in Inr (case gpm_Binary g1 of
                           None \<Rightarrow> g1
                         | Some b \<Rightarrow>
                             g1\<lparr>gpm_Binary := Some (b\<lparr>
                               bin_std := Some (StandardDeviationMap (gpm_phenotypes g) sd
                                                  (gpm_log_transform g) (gpm_logbase g)),
                               bin_err := Some (StandardErrorMap (gpm_phenotypes g) sd
                                                  (gpm_log_transform g) (gpm_n_replicates g)
                                                  (gpm_logbase g))\<rparr>)\<rparr>)))
      | None \<Rightarrow>
          if gpm_log_transform g0 then
            (case gpm_Raw g0 of
               None \<Rightarrow> Inl AttributeError
             | Some raw \<Rightarrow>
                 Inr (g0\<lparr>gpm_Raw := Some (raw\<lparr>raw_stdeviations := Some None\<rparr>),
                         gpm_stdeviations := None\<rparr>))
          else Inr (g0\<lparr>gpm_stdeviations := None\<rparr>))"

text \<open>
  The object before \<^verbatim>\<open>__init__\<close> has assigned anything. Every field that is not an
  \<open>option\<close> is assigned during construction before it is read.
\<close>

definition new_object :: gpm where
  "new_object =
     \<lparr>gpm_mutations = [],
      gpm_Mutations = \<lparr>mm_mutations = None, mm_wildtype = None, mm_n = None\<rparr>,
      gpm_logbase = (\<lambda>x. x), gpm_wildtype = [], gpm_n = 0, gpm_length = 0,
      gpm_genotypes = [], gpm_indices = [], gpm_log_transform = False,
      gpm_phenotypes = [], gpm_Raw = None, gpm_n_replicates = 1, gpm_Binary = None,
      gpm_missing_genotypes = [], gpm_stdeviations = None, gpm_std = None, gpm_err = None\<rparr>"

text \<open>
  \<^verbatim>\<open>GenotypePhenotypeMap.__init__\<close>, lines 107 to 152, in the order of its statements.
  \<^verbatim>\<open>logbase\<close> is a function here, so the check that it is callable cannot fail. An
  exception leaves no object. Without observed genotypes there is no farthest genotype to
  derive the mutations from, and construction stops (the genotypes setter raises
  \<open>IndexError\<close> on an empty array in any case). The plotting container is outside
  the model.
\<close>

definition construct ::
  "string \<Rightarrow> string list \<Rightarrow> real list \<Rightarrow> real list option \<Rightarrow> bool \<Rightarrow> mutations option \<Rightarrow>
   int \<Rightarrow> (real \<Rightarrow> real) \<Rightarrow> error + gpm" where
  "construct wildtype genotypes phenotypes stdeviations log_transform mutations n_replicates logbase =
     (case (case mutations of
              Some m \<Rightarrow> Inr m
            | None \<Rightarrow>
                (case farthest_genotype wildtype genotypes of
                   None \<Rightarrow> Inl IndexError
                 | Some mutant \<Rightarrow> Inr (binary_mutations_map wildtype mutant))) of
        Inl e \<Rightarrow> Inl e
      | Inr m \<Rightarrow>
          (let g1 = mutations_setter m new_object;
               g2 = g1\<lparr>gpm_logbase := logbase\<rparr>;
               g3 = wildtype_setter wildtype g2
           in case genotypes_setter genotypes g3 of
                (Some e, _) \<Rightarrow> Inl e
              | (None, g4) \<Rightarrow>
                  (case phenotypes_setter (PArray phenotypes) (log_transform_setter log_transform g4) of
                     Inl e \<Rightarrow> Inl e
                   | Inr g6 \<Rightarrow>
                       (let g7 = n_replicates_setter n_replicates g6;
                            g8 = g7\<lparr>gpm_Mutations :=
                                      \<lparr>mm_mutations = Some m, mm_wildtype = Some wildtype,
                                       mm_n = None\<rparr>\<rparr>;
                            g9 = new_BinaryMap g8
                        in construct_errors stdeviations g9))))"

section \<open>Subspaces\<close>

text \<open>
  \<^verbatim>\<open>subspace\<close>, lines 514 to 543. Reading \<^verbatim>\<open>self.Raw\<close> or
  \<^verbatim>\<open>self.Raw.stdeviations\<close> when it was never assigned raises.
\<close>

definition subspace :: "gpm \<Rightarrow> string \<Rightarrow> string \<Rightarrow> error + gpm" where
  "subspace g genotype1 genotype2 =
     (let mutations = binary_mutations_map genotype1 genotype2;
          encoding = encode_mutations genotype1 mutations
      in case (if gpm_log_transform g then
                 (case gpm_Raw g of
                    None \<Rightarrow> Inl AttributeError
                  | Some raw \<Rightarrow>
                      (case py_map (gpm_genotypes g) (raw_phenotypes raw) of
                         Inl e \<Rightarrow> Inl e
                       | Inr mapping \<Rightarrow>
                           (case raw_stdeviations raw of
                              None \<Rightarrow> Inl AttributeError
                            | Some stdeviations \<Rightarrow> Inr (mapping, stdeviations))))
               else
                 (case py_map (gpm_genotypes g) (gpm_phenotypes g) of
                    Inl e \<Rightarrow> Inl e
                  | Inr mapping \<Rightarrow> Inr (mapping, gpm_stdeviations g))) of
           Inl e \<Rightarrow> Inl e
         | Inr (mapping, stdeviations) \<Rightarrow>
             (let wildtype = genotype1;
                  genotypes = construct_genotypes encoding
              in case lookup_all mapping genotypes of
                   Inl e \<Rightarrow> Inl e
                 | Inr phenotypes \<Rightarrow>
                     construct wildtype genotypes phenotypes stdeviations (gpm_log_transform g)
                       (Some mutations) (gpm_n_replicates g) (gpm_logbase g)))"

section \<open>Sampling\<close>

text \<open>
  A numpy array of one or of two dimensions; \<open>Array2 c rows\<close> has shape
  \<open>(length rows, c)\<close>, every row of length \<open>c\<close>.
\<close>

datatype 'a ndarray = Array1 "'a list" | Array2 nat "'a list list"

definition shape :: "'a ndarray \<Rightarrow> nat list" where
  "shape a = (case a of Array1 xs \<Rightarrow> [length xs] | Array2 c rows \<Rightarrow> [length rows, c])"

text \<open>
  numpy's process-wide random generator is a state of type \<open>'r\<close> that every draw
  consumes and returns. \<open>np_choice r n k\<close> is
  \<^verbatim>\<open>np.random.choice(range(n), size=k, replace=False)\<close> and \<open>np_randn r\<close> is one
  standard normal draw.
\<close>

record 'r random_source =
  np_choice :: "'r \<Rightarrow> nat \<Rightarrow> nat \<Rightarrow> nat list \<times> 'r"
  np_randn :: "'r \<Rightarrow> real \<times> 'r"

text \<open>What numpy promises of \<^verbatim>\<open>choice\<close> without replacement: \<open>k\<close> distinct members of \<open>range(n)\<close>.\<close>

definition valid_choice :: "nat \<Rightarrow> nat \<Rightarrow> nat list \<Rightarrow> bool" where
  "valid_choice n k xs \<longleftrightarrow> length xs = k \<and> distinct xs \<and> (\<forall>x \<in> set xs. x < n)"

text \<open>\<^verbatim>\<open>np.random.randn(k)\<close>: \<open>k\<close> draws.\<close>

fun randn :: "'r random_source \<Rightarrow> nat \<Rightarrow> 'r \<Rightarrow> real list \<times> 'r" where
  "randn X 0 r = ([], r)"
| "randn X (Suc k) r =
     (case np_randn X r of
        (z, r1) \<Rightarrow> (case randn X k r1 of (zs, r2) \<Rightarrow> (z # zs, r2)))"

text \<open>Python's \<^verbatim>\<open>int\<close> of a float truncates towards zero.\<close>

definition py_int :: "real \<Rightarrow> int" where
  "py_int x = (if 0 \<le> x then \<lfloor>x\<rfloor> else \<lceil>x\<rceil>)"

text \<open>\<^verbatim>\<open>[xs[i] for i in indices]\<close>: the first index out of range raises.\<close>

fun take_at :: "'a list \<Rightarrow> nat list \<Rightarrow> error + 'a list" where
  "take_at xs [] = Inr []"
| "take_at xs (i # js) =
     (if length xs \<le> i then Inl IndexError
      else case take_at xs js of
             Inl e \<Rightarrow> Inl e
           | Inr ys \<Rightarrow> Inr (xs ! i # ys))"

text \<open>
  \<^verbatim>\<open>np.mean\<close> and \<^verbatim>\<open>np.std\<close> with \<^verbatim>\<open>ddof=1\<close> along a row; numpy's
  \<^verbatim>\<open>nan\<close> for a division by zero is \<open>None\<close>.
\<close>

definition mean :: "real list \<Rightarrow> real option" where
  "mean row = (if row = [] then None else Some (sum_list row / real (length row)))"

definition std_ddof1 :: "real list \<Rightarrow> real option" where
  "std_ddof1 row =
     (if length row \<le> 1 then None
      else Some (sqrt (sum_list (map (\<lambda>x. (x - sum_list row / real (length row))\<^sup>2) row)
                       / real (length row - 1))))"

record Sample =
  sample_gpm :: gpm
  replicate_genotypes :: "string ndarray"
  replicate_phenotypes :: "real ndarray"
  sample_genotypes :: "string list"
  sample_phenotypes :: "real option list"
  sample_stdeviations :: "real option list"
  sample_indices :: "nat list"

text \<open>
  \<^verbatim>\<open>Sample.__init__\<close>, lines 49 to 57. \<^verbatim>\<open>replicate_genotypes[:,0]\<close> raises
  \<^verbatim>\<open>IndexError\<close> on an array of one dimension (too many indices) and on an array
  without columns; \<^verbatim>\<open>np.mean(..., axis=1)\<close> raises numpy's \<^verbatim>\<open>AxisError\<close>, an
  \<^verbatim>\<open>IndexError\<close>, on an array of one dimension.
\<close>

definition Sample_init :: "gpm \<Rightarrow> string ndarray \<Rightarrow> real ndarray \<Rightarrow> nat list \<Rightarrow> error + Sample" where
  "Sample_init g rep_genotypes rep_phenotypes indices =
     (case rep_genotypes of
        Array1 _ \<Rightarrow> Inl IndexError
      | Array2 c rows \<Rightarrow>
          if c = 0 then Inl IndexError
          else (case rep_phenotypes of
                  Array1 _ \<Rightarrow> Inl IndexError
                | Array2 pc prows \<Rightarrow>
                    Inr \<lparr>sample_gpm = g,
                         replicate_genotypes = rep_genotypes,
                         replicate_phenotypes = rep_phenotypes,
                         sample_genotypes = map (\<lambda>row. row ! 0) rows,
                         sample_phenotypes = map mean prows,
                         sample_stdeviations = map std_ddof1 prows,
                         sample_indices = indices\<rparr>))"

text \<open>
  Lines 462 to 478: the indices to sample. \<open>fraction\<close> is a real number here, so the
  product with \<open>n\<close> is exact. Under \<open>derived\<close> the last entry of the sorted choice is
  overwritten, which raises on an empty array; a choice with an entry is made from a
  \<^verbatim>\<open>range(n)\<close> with \<open>n\<close> at least 1, so \<open>n - 1\<close> is a natural number.
\<close>

definition select_indices ::
  "'r random_source \<Rightarrow> gpm \<Rightarrow> string list option \<Rightarrow> real \<Rightarrow> bool \<Rightarrow> 'r \<Rightarrow> (error + nat list) \<times> 'r" where
  "select_indices X g genotypes fraction derived r =
     (case genotypes of
        None \<Rightarrow>
          if fraction < 0 \<or> fraction > 1 then (Inl FractionInvalid, r)
          else
            (let frac_length = nat (py_int (fraction * real (gpm_n g)))
             in case np_choice X r (gpm_n g) frac_length of
                  (chosen, r1) \<Rightarrow>
                    (let random_indices = sort chosen
                     in if derived then
                          (if random_indices = [] then (Inl IndexError, r1)
                           else (Inr (random_indices[length random_indices - 1 := gpm_n g - 1]), r1))
                        else (Inr random_indices, r1)))
      | Some gs \<Rightarrow>
          (case py_map (gpm_genotypes g) (gpm_indices g) of
             Inl e \<Rightarrow> (Inl e, r)
           | Inr mapping \<Rightarrow> (lookup_all mapping gs, r)))"

text \<open>
  Lines 494 to 501: the error bounds and the phenotypes that the draws are made from, when
  the attributes read on the way exist. \<open>upper\<close> is the \<^verbatim>\<open>upper\<close> property of an
  uncertainty view, a class outside the sources at hand.
\<close>

definition error_distribution :: "(errmap \<Rightarrow> real list) \<Rightarrow> gpm \<Rightarrow> (real list \<times> real list) option" where
  "error_distribution upper g =
     (if gpm_log_transform g then
        (case gpm_Raw g of
           None \<Rightarrow> None
         | Some raw \<Rightarrow>
             (case raw_err raw of
                None \<Rightarrow> None
              | Some e \<Rightarrow> Some (upper e, raw_phenotypes raw)))
      else
        (case gpm_err g of
           None \<Rightarrow> None
         | Some e \<Rightarrow> Some (upper e, gpm_phenotypes g)))"

text \<open>
  Lines 487 to 501, the body of the \<^verbatim>\<open>try\<close>: one row of genotypes and one row of
  phenotypes for each index. \<open>None\<close> is an exception raised on the way, whatever its
  kind: the bare \<^verbatim>\<open>except\<close> catches them all. The genotype array holds strings of at
  most \<^verbatim>\<open>self.length\<close> characters. In the sum for a row, the bound is read first,
  then the draws are made, then the phenotype is read.
\<close>

fun sample_rows ::
  "'r random_source \<Rightarrow> (errmap \<Rightarrow> real list) \<Rightarrow> gpm \<Rightarrow> nat \<Rightarrow> nat list \<Rightarrow> 'r \<Rightarrow>
   (string list \<times> real list) list option \<times> 'r" where
  "sample_rows X upper g k [] r = (Some [], r)"
| "sample_rows X upper g k (index # rest) r =
     (if length (gpm_genotypes g) \<le> index then (None, r)
      else
        (let seq = gpm_genotypes g ! index;
             genotype_row = replicate k (take (gpm_length g) seq)
         in case error_distribution upper g of
              None \<Rightarrow> (None, r)
            | Some (stdevs, phenotypes) \<Rightarrow>
                if length stdevs \<le> index then (None, r)
                else (case randn X k r of
                        (noise, r1) \<Rightarrow>
                          if length phenotypes \<le> index then (None, r1)
                          else (case sample_rows X upper g k rest r1 of
                                  (None, r2) \<Rightarrow> (None, r2)
                                | (Some rows, r2) \<Rightarrow>
                                    (Some ((genotype_row,
                                            map (\<lambda>z. stdevs ! index * z + phenotypes ! index) noise)
                                           # rows), r2)))))"

text \<open>
  \<^verbatim>\<open>sample\<close>, lines 449 to 511. The two \<^verbatim>\<open>np.empty\<close> calls come before the
  \<^verbatim>\<open>try\<close> and raise on a negative \<^verbatim>\<open>n_samples\<close>. When the \<^verbatim>\<open>try\<close> raised,
  the recorded values are put into arrays of one dimension.
\<close>

definition sample ::
  "'r random_source \<Rightarrow> (errmap \<Rightarrow> real list) \<Rightarrow> gpm \<Rightarrow> int \<Rightarrow> string list option \<Rightarrow> real \<Rightarrow> bool \<Rightarrow>
   'r \<Rightarrow> (error + Sample) \<times> 'r" where
  "sample X upper g n_samples genotypes fraction derived r =
     (case select_indices X g genotypes fraction derived r of
        (Inl e, r1) \<Rightarrow> (Inl e, r1)
      | (Inr random_indices, r1) \<Rightarrow>
          if n_samples < 0 then (Inl NegativeDimensions, r1)
          else
            (case sample_rows X upper g (nat n_samples) random_indices r1 of
               (Some rows, r2) \<Rightarrow>
                 (Sample_init g (Array2 (nat n_samples) (map fst rows))
                    (Array2 (nat n_samples) (map snd rows)) random_indices, r2)
             | (None, r2) \<Rightarrow>
                 if n_samples \<noteq> 1 then (Inl NoSampleError, r2)
                 else
                   (case take_at (gpm_genotypes g) random_indices of
                      Inl e \<Rightarrow> (Inl e, r2)
                    | Inr gs \<Rightarrow>
                        (case take_at (gpm_phenotypes g) random_indices of
                           Inl e \<Rightarrow> (Inl e, r2)
                         | Inr ps \<Rightarrow>
                             (Sample_init g (Array1 gs) (Array1 ps) random_indices, r2)))))"

section \<open>What the claims speak of\<close>

text \<open>
  The state derived from the phenotypes: the raw view, the two uncertainty views and the
  phenotype array of the binary view (absent without a binary view).
\<close>

definition derived_state ::
  "gpm \<Rightarrow> RawMap option \<times> errmap option \<times> errmap option \<times> real list option" where
  "derived_state g =
     (gpm_Raw g, gpm_std g, gpm_err g, map_option bin_phenotypes (gpm_Binary g))"

text \<open>
  The sub-lattice spanned by two genotypes, in the spec's words: every sequence reachable
  by independently varying each differing site between the endpoints.
\<close>

definition sublattice :: "string \<Rightarrow> string \<Rightarrow> string set" where
  "sublattice genotype1 genotype2 =
     {s. length s = length genotype1 \<and>
         (\<forall>i < length genotype1. s ! i = genotype1 ! i \<or> s ! i = genotype2 ! i)}"

section \<open>Facts about construction\<close>

lemma store_phenotypes_fields:
  "gpm_genotypes (store_phenotypes ps g) = gpm_genotypes g"
  "gpm_n (store_phenotypes ps g) = gpm_n g"
  "gpm_indices (store_phenotypes ps g) = gpm_indices g"
  "gpm_missing_genotypes (store_phenotypes ps g) = gpm_missing_genotypes g"
  "gpm_log_transform (store_phenotypes ps g) = gpm_log_transform g"
  "gpm_logbase (store_phenotypes ps g) = gpm_logbase g"
  "gpm_wildtype (store_phenotypes ps g) = gpm_wildtype g"
  "gpm_std (store_phenotypes ps g) = gpm_std g"
  "gpm_err (store_phenotypes ps g) = gpm_err g"
  "gpm_stdeviations (store_phenotypes ps g) = gpm_stdeviations g"
  "gpm_n_replicates (store_phenotypes ps g) = gpm_n_replicates g"
  "gpm_length (store_phenotypes ps g) = gpm_length g"
  "gpm_phenotypes (store_phenotypes ps g) =
     (if gpm_log_transform g then map (gpm_logbase g) ps else ps)"
  "gpm_Raw (store_phenotypes ps g) =
     (if gpm_log_transform g then Some (new_RawMap (gpm_genotypes g) ps) else gpm_Raw g)"
  "gpm_Binary (store_phenotypes ps g) =
     map_option (\<lambda>b. b\<lparr>bin_phenotypes := (if gpm_log_transform g then map (gpm_logbase g) ps else ps)\<rparr>)
       (gpm_Binary g)"
  by (simp_all add: store_phenotypes_def Let_def split: option.splits)

lemma construct_errors_views:
  assumes "construct_errors sd g0 = Inr g"
  shows "gpm_std g =
           (case sd of
              None \<Rightarrow> gpm_std g0
            | Some s \<Rightarrow>
                Some (StandardDeviationMap
                        (if gpm_log_transform g0 then raw_phenotypes (the (gpm_Raw g0))
                         else gpm_phenotypes g0)
                        s (gpm_log_transform g0) (gpm_logbase g0)))"
    and "gpm_err g =
           (case sd of
              None \<Rightarrow> gpm_err g0
            | Some s \<Rightarrow>
                Some (StandardErrorMap
                        (if gpm_log_transform g0 then raw_phenotypes (the (gpm_Raw g0))
                         else gpm_phenotypes g0)
                        s (gpm_log_transform g0) (gpm_n_replicates g0) (gpm_logbase g0)))"
    and "gpm_log_transform g0 \<longrightarrow>
         map_option raw_std (gpm_Raw g) =
           Some (case sd of
                   None \<Rightarrow> raw_std (the (gpm_Raw g0))
                 | Some s \<Rightarrow>
                     Some (StandardDeviationMap (gpm_phenotypes g0) s False (gpm_logbase g0)))"
    and "gpm_log_transform g0 \<longrightarrow>
         map_option raw_err (gpm_Raw g) =
           Some (case sd of
                   None \<Rightarrow> raw_err (the (gpm_Raw g0))
                 | Some s \<Rightarrow>
                     Some (StandardErrorMap (gpm_phenotypes g0) s False (gpm_n_replicates g0)
                             (gpm_logbase g0)))"
    and "\<not> gpm_log_transform g0 \<longrightarrow> gpm_Raw g = gpm_Raw g0"
  using assms
  by (auto simp add: construct_errors_def Let_def split: option.splits if_splits)

lemma construct_errors_fields:
  assumes "construct_errors sd g0 = Inr g"
  shows "gpm_genotypes g = gpm_genotypes g0 \<and> gpm_n g = gpm_n g0 \<and>
         gpm_indices g = gpm_indices g0 \<and>
         gpm_missing_genotypes g = gpm_missing_genotypes g0 \<and>
         gpm_log_transform g = gpm_log_transform g0 \<and> gpm_logbase g = gpm_logbase g0 \<and>
         gpm_wildtype g = gpm_wildtype g0 \<and> gpm_phenotypes g = gpm_phenotypes g0 \<and>
         gpm_n_replicates g = gpm_n_replicates g0 \<and> gpm_length g = gpm_length g0 \<and>
         gpm_stdeviations g = sd \<and>
         map_option bin_phenotypes (gpm_Binary g) = map_option bin_phenotypes (gpm_Binary g0) \<and>
         map_option raw_phenotypes (gpm_Raw g) = map_option raw_phenotypes (gpm_Raw g0) \<and>
         map_option raw_genotypes (gpm_Raw g) = map_option raw_genotypes (gpm_Raw g0) \<and>
         (gpm_log_transform g0 \<longrightarrow> map_option raw_stdeviations (gpm_Raw g) = Some (Some sd))"
  using assms
  by (auto simp add: construct_errors_def Let_def split: option.splits if_splits)

text \<open>The state that construction hands to \<open>construct_errors\<close>.\<close>

lemma construct_before_errors:
  assumes "construct wt gs ps sd lt muts nr lb = Inr g"
  shows "\<exists>g9. construct_errors sd g9 = Inr g \<and> gs \<noteq> [] \<and> length ps = length gs \<and>
           gpm_genotypes g9 = gs \<and> gpm_n g9 = length gs \<and> gpm_indices g9 = [0..<length gs] \<and>
           gpm_wildtype g9 = wt \<and> gpm_log_transform g9 = lt \<and> gpm_logbase g9 = lb \<and>
           gpm_n_replicates g9 = nr \<and> gpm_length g9 = length (hd gs) \<and>
           gpm_phenotypes g9 = (if lt then map lb ps else ps) \<and>
           gpm_std g9 = None \<and> gpm_err g9 = None \<and>
           gpm_Raw g9 = (if lt then Some (new_RawMap gs ps) else None) \<and>
           map_option bin_phenotypes (gpm_Binary g9) = Some (if lt then map lb ps else ps)"
  using assms
  unfolding construct_def
  by (auto simp add: Let_def genotypes_setter_def phenotypes_setter_def resolve_phenotypes_def
      store_phenotypes_fields log_transform_setter_def n_replicates_setter_def
      wildtype_setter_def mutations_setter_def new_object_def new_BinaryMap_def
      split: option.splits sum.splits list.splits if_splits prod.splits)

lemma construct_Inr:
  assumes "construct wt gs ps sd lt muts nr lb = Inr g"
  shows "gs \<noteq> [] \<and> length ps = length gs \<and> gpm_genotypes g = gs \<and> gpm_n g = length gs \<and>
         gpm_indices g = [0..<length gs] \<and> gpm_wildtype g = wt \<and> gpm_log_transform g = lt \<and>
         gpm_logbase g = lb \<and> gpm_n_replicates g = nr \<and> gpm_length g = length (hd gs) \<and>
         gpm_stdeviations g = sd \<and> gpm_phenotypes g = (if lt then map lb ps else ps) \<and>
         map_option bin_phenotypes (gpm_Binary g) = Some (if lt then map lb ps else ps) \<and>
         map_option raw_phenotypes (gpm_Raw g) = (if lt then Some ps else None) \<and>
         map_option raw_genotypes (gpm_Raw g) = (if lt then Some gs else None) \<and>
         (lt \<longrightarrow> map_option raw_stdeviations (gpm_Raw g) = Some (Some sd))"
proof -
  from construct_before_errors[OF assms] obtain g9 where
    e: "construct_errors sd g9 = Inr g" and
    f: "gs \<noteq> []" "length ps = length gs" "gpm_genotypes g9 = gs" "gpm_n g9 = length gs"
       "gpm_indices g9 = [0..<length gs]" "gpm_wildtype g9 = wt" "gpm_log_transform g9 = lt"
       "gpm_logbase g9 = lb" "gpm_n_replicates g9 = nr" "gpm_length g9 = length (hd gs)"
       "gpm_phenotypes g9 = (if lt then map lb ps else ps)"
       "gpm_Raw g9 = (if lt then Some (new_RawMap gs ps) else None)"
       "map_option bin_phenotypes (gpm_Binary g9) = Some (if lt then map lb ps else ps)"
    by blast
  show ?thesis
    using construct_errors_fields[OF e] f by (simp add: new_RawMap_def)
qed

lemma construct_views:
  assumes "construct wt gs ps sd lt muts nr lb = Inr g"
  shows "gpm_std g = map_option (\<lambda>s. StandardDeviationMap ps s lt lb) sd \<and>
         gpm_err g = map_option (\<lambda>s. StandardErrorMap ps s lt nr lb) sd \<and>
         (lt \<longrightarrow> map_option raw_std (gpm_Raw g) =
                 Some (map_option (\<lambda>s. StandardDeviationMap (map lb ps) s False lb) sd)) \<and>
         (lt \<longrightarrow> map_option raw_err (gpm_Raw g) =
                 Some (map_option (\<lambda>s. StandardErrorMap (map lb ps) s False nr lb) sd)) \<and>
         (\<not> lt \<longrightarrow> gpm_Raw g = None)"
proof -
  from construct_before_errors[OF assms] obtain g9 where
    e: "construct_errors sd g9 = Inr g" and
    f: "gpm_log_transform g9 = lt"
       "gpm_logbase g9 = lb" "gpm_n_replicates g9 = nr"
       "gpm_phenotypes g9 = (if lt then map lb ps else ps)"
       "gpm_std g9 = None" "gpm_err g9 = None"
       "gpm_Raw g9 = (if lt then Some (new_RawMap gs ps) else None)"
    by blast
  show ?thesis
    using construct_errors_views[OF e] f by (cases sd) (simp_all add: new_RawMap_def)
qed

lemma construct_succeeds:
  assumes "gs \<noteq> []" and "length ps = length gs"
  shows "\<exists>g. construct wt gs ps sd lt muts nr lb = Inr g"
  using assms
  unfolding construct_def
  by (auto simp add: Let_def genotypes_setter_def phenotypes_setter_def resolve_phenotypes_def
      store_phenotypes_fields log_transform_setter_def n_replicates_setter_def
      wildtype_setter_def mutations_setter_def new_object_def new_BinaryMap_def
      construct_errors_def farthest_genotype_def
      split: option.splits sum.splits list.splits if_splits prod.splits)

section \<open>The phenotypes setter: dictionary or array\<close>

lemma if_dict_elements_all:
  assumes "\<forall>i \<in> set js. i < length gs \<and> d (gs ! i) \<noteq> None"
  shows "if_dict_elements gs d js = Inr (map (\<lambda>i. the (d (gs ! i))) js)"
  using assms by (induction js) auto

lemma if_dict_all:
  assumes "gpm_n g = length (gpm_genotypes g)"
    and "\<forall>k \<in> set (gpm_genotypes g). d k \<noteq> None"
  shows "if_dict g d = Inr (map (\<lambda>k. the (d k)) (gpm_genotypes g))"
proof -
  have "if_dict g d = Inr (map (\<lambda>i. the (d (gpm_genotypes g ! i))) [0..<length (gpm_genotypes g)])"
    unfolding if_dict_def using assms by (simp add: if_dict_elements_all)
  also have "map (\<lambda>i. the (d (gpm_genotypes g ! i))) [0..<length (gpm_genotypes g)]
             = map (\<lambda>k. the (d k)) (map (\<lambda>i. gpm_genotypes g ! i) [0..<length (gpm_genotypes g)])"
    by simp
  also have "\<dots> = map (\<lambda>k. the (d k)) (gpm_genotypes g)"
    by (simp only: map_nth)
  finally show ?thesis .
qed

text \<open>
  Claim C7. On a constructed map with \<open>n\<close> genotypes, the phenotypes setter resolves a
  dictionary from genotype to value into the array ordered as the genotypes (every
  genotype being a key); a positional array fails with the length-mismatch error exactly
  when its length differs from \<open>n\<close>, and otherwise is resolved to itself. The resolved
  array has \<open>n\<close> entries and is stored index-aligned with the genotypes: as it is
  without \<open>log_transform\<close>, and with \<open>log_transform\<close> in the raw view, the map keeping
  \<open>logbase\<close> of each entry.
\<close>

theorem phenotypes_setter_dict_or_array:
  assumes "construct wt gs ps0 sd lt muts nr lb = Inr g"
  shows "((\<forall>k \<in> set (gpm_genotypes g). d k \<noteq> None) \<longrightarrow>
            resolve_phenotypes g (PDict d) = Inr (map (\<lambda>k. the (d k)) (gpm_genotypes g))) \<and>
         (resolve_phenotypes g (PArray ps) = Inl LengthMismatch \<longleftrightarrow> length ps \<noteq> gpm_n g) \<and>
         (phenotypes_setter (PArray ps) g = Inl LengthMismatch \<longleftrightarrow> length ps \<noteq> gpm_n g) \<and>
         (length ps = gpm_n g \<longrightarrow> resolve_phenotypes g (PArray ps) = Inr ps) \<and>
         (\<forall>vs. resolve_phenotypes g arg = Inr vs \<longrightarrow>
            length vs = gpm_n g \<and>
            (\<exists>g'. phenotypes_setter arg g = Inr g' \<and>
                  gpm_genotypes g' = gpm_genotypes g \<and> gpm_n g' = gpm_n g \<and>
                  (if gpm_log_transform g
                   then map_option raw_phenotypes (gpm_Raw g') = Some vs \<and>
                        gpm_phenotypes g' = map (gpm_logbase g) vs
                   else gpm_phenotypes g' = vs)))"
proof -
  have n: "gpm_n g = length (gpm_genotypes g)"
    using construct_Inr[OF assms] by simp
  have len: "length vs = gpm_n g" if "resolve_phenotypes g arg = Inr vs" for vs
  proof (cases arg)
    case (PArray xs)
    with that n show ?thesis by (simp add: resolve_phenotypes_def split: if_splits)
  next
    case (PDict m)
    have "length ys = length js" if "if_dict_elements hs m js = Inr ys" for hs js ys
      using that by (induction js arbitrary: ys) (auto split: if_splits option.splits sum.splits)
    with that PDict show ?thesis by (fastforce simp add: resolve_phenotypes_def if_dict_def)
  qed
  show ?thesis
    using n len
    by (auto simp add: resolve_phenotypes_def if_dict_all phenotypes_setter_def
        store_phenotypes_fields new_RawMap_def)
qed

theorem phenotypes_setter_dict_or_array_witness:
  "\<exists>g. construct ''AA'' [''AA'', ''AT'', ''TA'', ''TT''] [0, 1, 1, 2] None False None 1 (log 10) = Inr g \<and>
       resolve_phenotypes g
         (PDict (map_of [(''TT'', 8), (''AA'', 5), (''TA'', 7), (''AT'', 6), (''GG'', 9)]))
         = Inr [5, 6, 7, 8] \<and>
       resolve_phenotypes g (PArray [1, 2, 3]) = Inl LengthMismatch \<and>
       phenotypes_setter (PArray [1, 2, 3]) g = Inl LengthMismatch \<and>
       (\<exists>g'. phenotypes_setter (PArray [3, 4, 5, 6]) g = Inr g' \<and>
             gpm_genotypes g' = [''AA'', ''AT'', ''TA'', ''TT''] \<and>
             gpm_phenotypes g' = [3, 4, 5, 6])"
proof -
  have "\<exists>g. construct ''AA'' [''AA'', ''AT'', ''TA'', ''TT''] [0, 1, 1, 2] None False None 1 (log 10) = Inr g"
    by (rule construct_succeeds) simp_all
  then obtain g where
    c: "construct ''AA'' [''AA'', ''AT'', ''TA'', ''TT''] [0, 1, 1, 2] None False None 1 (log 10) = Inr g" ..
  note f = construct_Inr[OF c]
  have d: "resolve_phenotypes g
         (PDict (map_of [(''TT'', 8), (''AA'', 5), (''TA'', 7), (''AT'', 6), (''GG'', 9)]))
         = Inr [5, 6, 7, 8]"
    using phenotypes_setter_dict_or_array[OF c,
        of "map_of [(''TT'', 8), (''AA'', 5), (''TA'', 7), (''AT'', 6), (''GG'', 9)]"] f
    by simp
  have a: "resolve_phenotypes g (PArray [1, 2, 3]) = Inl LengthMismatch \<and>
           phenotypes_setter (PArray [1, 2, 3]) g = Inl LengthMismatch"
    using phenotypes_setter_dict_or_array[OF c, of _ "[1, 2, 3]"] f by simp
  have r: "resolve_phenotypes g (PArray [3, 4, 5, 6]) = Inr [3, 4, 5, 6]"
    using phenotypes_setter_dict_or_array[OF c, of _ "[3, 4, 5, 6]"] f by simp
  have s: "\<exists>g'. phenotypes_setter (PArray [3, 4, 5, 6]) g = Inr g' \<and>
             gpm_genotypes g' = [''AA'', ''AT'', ''TA'', ''TT''] \<and>
             gpm_phenotypes g' = [3, 4, 5, 6]"
    using phenotypes_setter_dict_or_array[OF c, of _ _ "PArray [3, 4, 5, 6]"] r f by auto
  from c d a s show ?thesis by blast
qed

section \<open>The raw view under the log transform\<close>

lemma log10_values: "log 10 1 = 0" "log 10 10 = 1" "log 10 100 = 2" "log 10 1000 = 3"
  using log_pow_cancel[of 10 2] log_pow_cancel[of 10 3] by simp_all

lemma store_phenotypes_under_log_transform:
  assumes "gpm_log_transform g"
  shows "\<exists>raw. gpm_Raw (store_phenotypes ps g) = Some raw \<and>
           raw_genotypes raw = gpm_genotypes g \<and> raw_phenotypes raw = ps \<and>
           gpm_phenotypes (store_phenotypes ps g) = map (gpm_logbase g) ps"
  using assms by (simp add: store_phenotypes_fields new_RawMap_def)

text \<open>
  Claim C2, as the code has it. On a map with \<open>log_transform\<close>, the phenotypes setter
  accepts an array as long as the genotypes, and a dictionary that has every genotype read
  by \<^verbatim>\<open>_if_dict\<close> as a key. The raw view then holds the genotypes and the phenotypes
  exactly as given (for a dictionary, its values in the order of the genotypes), and the
  map's own phenotypes are \<open>logbase\<close> of each of them. With the logarithm to base 10 as
  \<open>logbase\<close>, 10 to the power of the map's phenotype gives the raw phenotype back at
  every index where the raw phenotype is positive, so for the whole array when all of them
  are; over the reals the round trip is exact.
\<close>

theorem raw_view_keeps_given_phenotypes:
  assumes "gpm_log_transform g"
  shows "(length ps = length (gpm_genotypes g) \<longrightarrow>
            (\<exists>g' raw. phenotypes_setter (PArray ps) g = Inr g' \<and> gpm_Raw g' = Some raw \<and>
               raw_genotypes raw = gpm_genotypes g \<and> raw_phenotypes raw = ps \<and>
               gpm_phenotypes g' = map (gpm_logbase g) ps \<and>
               (gpm_logbase g = log 10 \<longrightarrow>
                  (\<forall>i < length ps. 0 < ps ! i \<longrightarrow>
                     10 powr (gpm_phenotypes g' ! i) = raw_phenotypes raw ! i) \<and>
                  ((\<forall>p \<in> set ps. 0 < p) \<longrightarrow>
                     map (\<lambda>y. 10 powr y) (gpm_phenotypes g') = raw_phenotypes raw)))) \<and>
         ((\<forall>i < gpm_n g. i < length (gpm_genotypes g) \<and> d (gpm_genotypes g ! i) \<noteq> None) \<longrightarrow>
            (\<exists>g' raw. phenotypes_setter (PDict d) g = Inr g' \<and> gpm_Raw g' = Some raw \<and>
               raw_genotypes raw = gpm_genotypes g \<and>
               raw_phenotypes raw = map (\<lambda>i. the (d (gpm_genotypes g ! i))) [0..<gpm_n g] \<and>
               gpm_phenotypes g' = map (gpm_logbase g) (raw_phenotypes raw) \<and>
               (gpm_logbase g = log 10 \<longrightarrow>
                  (\<forall>i < gpm_n g. 0 < raw_phenotypes raw ! i \<longrightarrow>
                     10 powr (gpm_phenotypes g' ! i) = raw_phenotypes raw ! i) \<and>
                  ((\<forall>p \<in> set (raw_phenotypes raw). 0 < p) \<longrightarrow>
                     map (\<lambda>y. 10 powr y) (gpm_phenotypes g') = raw_phenotypes raw))))"
proof -
  have stored: "\<exists>g' raw. phenotypes_setter arg g = Inr g' \<and> gpm_Raw g' = Some raw \<and>
               raw_genotypes raw = gpm_genotypes g \<and> raw_phenotypes raw = vs \<and>
               gpm_phenotypes g' = map (gpm_logbase g) vs \<and>
               (gpm_logbase g = log 10 \<longrightarrow>
                  (\<forall>i < length vs. 0 < vs ! i \<longrightarrow>
                     10 powr (gpm_phenotypes g' ! i) = raw_phenotypes raw ! i) \<and>
                  ((\<forall>p \<in> set vs. 0 < p) \<longrightarrow>
                     map (\<lambda>y. 10 powr y) (gpm_phenotypes g') = raw_phenotypes raw))"
    if r: "resolve_phenotypes g arg = Inr vs" for arg vs
  proof -
    from store_phenotypes_under_log_transform[OF assms, of vs] obtain raw where
      raw: "gpm_Raw (store_phenotypes vs g) = Some raw" "raw_genotypes raw = gpm_genotypes g"
        "raw_phenotypes raw = vs"
        "gpm_phenotypes (store_phenotypes vs g) = map (gpm_logbase g) vs"
      by blast
    have s: "phenotypes_setter arg g = Inr (store_phenotypes vs g)"
      using r by (simp add: phenotypes_setter_def)
    have e: "10 powr (map (log 10) vs ! i) = vs ! i" if "i < length vs" "0 < vs ! i" for i
      using that by simp
    have w: "map (\<lambda>y. 10 powr y) (map (log 10) vs) = vs" if "\<forall>p \<in> set vs. 0 < p"
      using that by (induction vs) simp_all
    show ?thesis
      apply (rule exI[of _ "store_phenotypes vs g"], rule exI[of _ raw])
      using s raw e w by simp
  qed
  have a: "resolve_phenotypes g (PArray ps) = Inr ps" if "length ps = length (gpm_genotypes g)"
    using that by (simp add: resolve_phenotypes_def)
  have dd: "resolve_phenotypes g (PDict d) =
              Inr (map (\<lambda>i. the (d (gpm_genotypes g ! i))) [0..<gpm_n g])"
    if "\<forall>i < gpm_n g. i < length (gpm_genotypes g) \<and> d (gpm_genotypes g ! i) \<noteq> None"
    using that by (simp add: resolve_phenotypes_def if_dict_def if_dict_elements_all)
  show ?thesis
  proof (intro conjI impI)
    assume "length ps = length (gpm_genotypes g)"
    from stored[OF a[OF this]] show "\<exists>g' raw. phenotypes_setter (PArray ps) g = Inr g' \<and> gpm_Raw g' = Some raw \<and>
               raw_genotypes raw = gpm_genotypes g \<and> raw_phenotypes raw = ps \<and>
               gpm_phenotypes g' = map (gpm_logbase g) ps \<and>
               (gpm_logbase g = log 10 \<longrightarrow>
                  (\<forall>i < length ps. 0 < ps ! i \<longrightarrow>
                     10 powr (gpm_phenotypes g' ! i) = raw_phenotypes raw ! i) \<and>
                  ((\<forall>p \<in> set ps. 0 < p) \<longrightarrow>
                     map (\<lambda>y. 10 powr y) (gpm_phenotypes g') = raw_phenotypes raw))" .
  next
    assume "\<forall>i < gpm_n g. i < length (gpm_genotypes g) \<and> d (gpm_genotypes g ! i) \<noteq> None"
    from stored[OF dd[OF this]] obtain g' raw where
      h: "phenotypes_setter (PDict d) g = Inr g'" "gpm_Raw g' = Some raw"
         "raw_genotypes raw = gpm_genotypes g"
         "raw_phenotypes raw = map (\<lambda>i. the (d (gpm_genotypes g ! i))) [0..<gpm_n g]"
         "gpm_phenotypes g' = map (gpm_logbase g) (map (\<lambda>i. the (d (gpm_genotypes g ! i))) [0..<gpm_n g])"
         "gpm_logbase g = log 10 \<longrightarrow>
            (\<forall>i < length (map (\<lambda>i. the (d (gpm_genotypes g ! i))) [0..<gpm_n g]).
                0 < map (\<lambda>i. the (d (gpm_genotypes g ! i))) [0..<gpm_n g] ! i \<longrightarrow>
                10 powr (gpm_phenotypes g' ! i) = raw_phenotypes raw ! i) \<and>
            ((\<forall>p \<in> set (map (\<lambda>i. the (d (gpm_genotypes g ! i))) [0..<gpm_n g]). 0 < p) \<longrightarrow>
                map (\<lambda>y. 10 powr y) (gpm_phenotypes g') = raw_phenotypes raw)"
      by blast
    show "\<exists>g' raw. phenotypes_setter (PDict d) g = Inr g' \<and> gpm_Raw g' = Some raw \<and>
               raw_genotypes raw = gpm_genotypes g \<and>
               raw_phenotypes raw = map (\<lambda>i. the (d (gpm_genotypes g ! i))) [0..<gpm_n g] \<and>
               gpm_phenotypes g' = map (gpm_logbase g) (raw_phenotypes raw) \<and>
               (gpm_logbase g = log 10 \<longrightarrow>
                  (\<forall>i < gpm_n g. 0 < raw_phenotypes raw ! i \<longrightarrow>
                     10 powr (gpm_phenotypes g' ! i) = raw_phenotypes raw ! i) \<and>
                  ((\<forall>p \<in> set (raw_phenotypes raw). 0 < p) \<longrightarrow>
                     map (\<lambda>y. 10 powr y) (gpm_phenotypes g') = raw_phenotypes raw))"
      apply (rule exI[of _ g'], rule exI[of _ raw])
      using h by (simp del: map_map)
  qed
qed

theorem raw_view_keeps_given_phenotypes_witness:
  "\<exists>g g1 raw1 g2 raw2.
     construct ''AA'' [''AA'', ''AT'', ''TA'', ''TT''] [1, 10, 10, 100] None True None 1 (log 10) = Inr g \<and>
     phenotypes_setter (PArray [10, 100, 100, 1000]) g = Inr g1 \<and>
     gpm_Raw g1 = Some raw1 \<and>
     raw_genotypes raw1 = [''AA'', ''AT'', ''TA'', ''TT''] \<and>
     raw_phenotypes raw1 = [10, 100, 100, 1000] \<and>
     gpm_phenotypes g1 = [1, 2, 2, 3] \<and>
     map (\<lambda>y. 10 powr y) (gpm_phenotypes g1) = [10, 100, 100, 1000] \<and>
     phenotypes_setter
       (PDict (map_of [(''TT'', 1000), (''AA'', 1), (''TA'', 100), (''AT'', 10), (''GG'', 7)])) g = Inr g2 \<and>
     gpm_Raw g2 = Some raw2 \<and>
     raw_phenotypes raw2 = [1, 10, 100, 1000] \<and>
     gpm_phenotypes g2 = [0, 1, 2, 3] \<and>
     map (\<lambda>y. 10 powr y) (gpm_phenotypes g2) = [1, 10, 100, 1000]"
proof -
  define d :: "string \<rightharpoonup> real" where
    "d = map_of [(''TT'', 1000), (''AA'', 1), (''TA'', 100), (''AT'', 10), (''GG'', 7)]"
  have "\<exists>g. construct ''AA'' [''AA'', ''AT'', ''TA'', ''TT''] [1, 10, 10, 100] None True None 1 (log 10) = Inr g"
    by (rule construct_succeeds) simp_all
  then obtain g where
    c: "construct ''AA'' [''AA'', ''AT'', ''TA'', ''TT''] [1, 10, 10, 100] None True None 1 (log 10) = Inr g" ..
  note f = construct_Inr[OF c]
  have l: "gpm_log_transform g" and gs: "gpm_genotypes g = [''AA'', ''AT'', ''TA'', ''TT'']"
    and n: "gpm_n g = 4" and lb: "gpm_logbase g = log 10"
    using f by simp_all
  have la: "length [10, 100, 100, 1000 :: real] = length (gpm_genotypes g)" by (simp add: gs)
  have i4: "[0..<4] = [0, Suc 0, 2, 3]" by (simp add: upt_rec)
  have keys: "\<forall>i < gpm_n g. i < length (gpm_genotypes g) \<and> d (gpm_genotypes g ! i) \<noteq> None"
  proof -
    have "\<forall>k \<in> set [''AA'', ''AT'', ''TA'', ''TT'']. d k \<noteq> None" by (simp add: d_def)
    then have "\<forall>i. i < length [''AA'', ''AT'', ''TA'', ''TT''] \<longrightarrow>
                 d ([''AA'', ''AT'', ''TA'', ''TT''] ! i) \<noteq> None"
      by (simp only: all_set_conv_all_nth)
    then show ?thesis unfolding n gs by simp
  qed
  have vals: "map (\<lambda>i. the (d (gpm_genotypes g ! i))) [0..<gpm_n g] = [1, 10, 100, 1000]"
    by (simp add: n gs i4 d_def)
  from raw_view_keeps_given_phenotypes[OF l, of "[10, 100, 100, 1000]" d] la keys
  obtain g1 raw1 g2 raw2 where
    a: "phenotypes_setter (PArray [10, 100, 100, 1000]) g = Inr g1" "gpm_Raw g1 = Some raw1"
       "raw_genotypes raw1 = gpm_genotypes g" "raw_phenotypes raw1 = [10, 100, 100, 1000]"
       "gpm_phenotypes g1 = map (gpm_logbase g) [10, 100, 100, 1000]"
       "gpm_logbase g = log 10 \<longrightarrow>
          ((\<forall>p \<in> set [10, 100, 100, 1000 :: real]. 0 < p) \<longrightarrow>
             map (\<lambda>y. 10 powr y) (gpm_phenotypes g1) = raw_phenotypes raw1)"
    and b: "phenotypes_setter (PDict d) g = Inr g2" "gpm_Raw g2 = Some raw2"
       "raw_phenotypes raw2 = map (\<lambda>i. the (d (gpm_genotypes g ! i))) [0..<gpm_n g]"
       "gpm_phenotypes g2 = map (gpm_logbase g) (raw_phenotypes raw2)"
       "gpm_logbase g = log 10 \<longrightarrow>
          ((\<forall>p \<in> set (raw_phenotypes raw2). 0 < p) \<longrightarrow>
             map (\<lambda>y. 10 powr y) (gpm_phenotypes g2) = raw_phenotypes raw2)"
    by blast
  have a': "gpm_phenotypes g1 = [1, 2, 2, 3]"
    "map (\<lambda>y. 10 powr y) (gpm_phenotypes g1) = [10, 100, 100, 1000]"
    "raw_genotypes raw1 = [''AA'', ''AT'', ''TA'', ''TT'']"
    using a lb gs by (simp_all add: log10_values)
  have r2: "raw_phenotypes raw2 = [1, 10, 100, 1000]" using b(3) vals by simp
  have b': "gpm_phenotypes g2 = [0, 1, 2, 3]"
    "map (\<lambda>y. 10 powr y) (gpm_phenotypes g2) = [1, 10, 100, 1000]"
    using b(4,5) lb r2 by (simp_all add: log10_values)
  show ?thesis
    apply (rule exI[of _ g], rule exI[of _ g1], rule exI[of _ raw1], rule exI[of _ g2],
        rule exI[of _ raw2])
    using c a(1,2,4) a' b(1,2) r2 b' unfolding d_def by simp
qed

text \<open>
  Claim C2 as stated fails at a negative phenotype, which the setter accepts as any other:
  a power of 10 is never negative, whatever \<open>logbase\<close> gave, so 10 to the power of the
  map's phenotypes is not the raw array \<^verbatim>\<open>[1, 10, 10, -1]\<close>.
\<close>

theorem log10_round_trip_fails_on_negative_phenotype:
  "case construct ''AA'' [''AA'', ''AT'', ''TA'', ''TT''] [1, 10, 10, 100] None True None 1 (log 10) of
     Inl e \<Rightarrow> False
   | Inr g \<Rightarrow>
       (case phenotypes_setter (PArray [1, 10, 10, - 1]) g of
          Inl e \<Rightarrow> False
        | Inr g' \<Rightarrow>
            map_option raw_phenotypes (gpm_Raw g') = Some [1, 10, 10, - 1] \<and>
            length (gpm_phenotypes g') = 4 \<and>
            10 powr (gpm_phenotypes g' ! 3) \<noteq> - 1 \<and>
            map (\<lambda>y. 10 powr y) (gpm_phenotypes g') \<noteq> [1, 10, 10, - 1])"
proof -
  have "\<exists>g. construct ''AA'' [''AA'', ''AT'', ''TA'', ''TT''] [1, 10, 10, 100] None True None 1 (log 10) = Inr g"
    by (rule construct_succeeds) simp_all
  then obtain g where
    c: "construct ''AA'' [''AA'', ''AT'', ''TA'', ''TT''] [1, 10, 10, 100] None True None 1 (log 10) = Inr g" ..
  note f = construct_Inr[OF c]
  have l: "gpm_log_transform g" and gs: "gpm_genotypes g = [''AA'', ''AT'', ''TA'', ''TT'']"
    using f by simp_all
  define g' where "g' = store_phenotypes [1, 10, 10, - 1] g"
  have s: "phenotypes_setter (PArray [1, 10, 10, - 1]) g = Inr g'"
    by (simp add: phenotypes_setter_def resolve_phenotypes_def gs g'_def)
  have r: "map_option raw_phenotypes (gpm_Raw g') = Some [1, 10, 10, - 1]"
    using l by (simp add: g'_def store_phenotypes_fields new_RawMap_def)
  have n: "length (gpm_phenotypes g') = 4"
    using l by (simp add: g'_def store_phenotypes_fields)
  have p: "10 powr (gpm_phenotypes g' ! 3) \<noteq> - 1"
  proof
    assume "10 powr (gpm_phenotypes g' ! 3) = - 1"
    moreover have "0 \<le> (10::real) powr (gpm_phenotypes g' ! 3)" by (rule powr_ge_zero)
    ultimately show False by simp
  qed
  have m: "map (\<lambda>y. 10 powr y) (gpm_phenotypes g') \<noteq> [1, 10, 10, - 1]"
  proof
    assume "map (\<lambda>y. 10 powr y) (gpm_phenotypes g') = [1, 10, 10, - 1]"
    then have "map (\<lambda>y. 10 powr y) (gpm_phenotypes g') ! 3 = [1, 10, 10, - 1 :: real] ! 3"
      by (rule arg_cong)
    with n p show False by simp
  qed
  show ?thesis
    unfolding c sum.case s
    using r n p m by simp
qed

section \<open>Sampling: the fraction and the forced last index\<close>

text \<open>
  Claim C9. With \<^verbatim>\<open>genotypes=None\<close> and a fraction below 0 or above 1, \<^verbatim>\<open>sample\<close>
  fails with the range error, and the random generator is returned as it was given: no
  index has been chosen and nothing has been drawn.
\<close>

theorem sample_rejects_fraction_outside_unit_interval:
  assumes "fraction < 0 \<or> 1 < fraction"
  shows "sample X upper g n_samples None fraction derived r = (Inl FractionInvalid, r)"
  using assms by (auto simp add: sample_def select_indices_def)

theorem sample_rejects_fraction_outside_unit_interval_witness:
  "\<exists>g. construct ''AA'' [''AA'', ''AT'', ''TA'', ''TT''] [0, 1, 1, 2] (Some [0.1, 0.1, 0.1, 0.2])
          False None 4 (log 10) = Inr g \<and>
       sample \<lparr>np_choice = (\<lambda>r n k. (rev [0..<k], Suc r)), np_randn = (\<lambda>r. (0, Suc r))\<rparr>
         (\<lambda>e. []) g 5 None 2 True (0::nat) = (Inl FractionInvalid, 0) \<and>
       sample \<lparr>np_choice = (\<lambda>r n k. (rev [0..<k], Suc r)), np_randn = (\<lambda>r. (0, Suc r))\<rparr>
         (\<lambda>e. []) g 5 None (- 1 / 2) False (0::nat) = (Inl FractionInvalid, 0)"
proof -
  have "\<exists>g. construct ''AA'' [''AA'', ''AT'', ''TA'', ''TT''] [0, 1, 1, 2] (Some [0.1, 0.1, 0.1, 0.2])
          False None 4 (log 10) = Inr g"
    by (rule construct_succeeds) simp_all
  then obtain g where
    c: "construct ''AA'' [''AA'', ''AT'', ''TA'', ''TT''] [0, 1, 1, 2] (Some [0.1, 0.1, 0.1, 0.2])
          False None 4 (log 10) = Inr g" ..
  have a: "(2::real) < 0 \<or> 1 < (2::real)" by simp
  have b: "(- 1 / 2 :: real) < 0 \<or> 1 < (- 1 / 2 :: real)" by simp
  show ?thesis
    apply (rule exI[of _ g])
    apply (intro conjI)
      apply (rule c)
     apply (rule sample_rejects_fraction_outside_unit_interval[OF a])
    apply (rule sample_rejects_fraction_outside_unit_interval[OF b])
    done
qed

text \<open>
  Claim C10. With \<^verbatim>\<open>genotypes=None\<close>, \<^verbatim>\<open>derived=True\<close> and a fraction in [0, 1] for
  which the number of indices to choose, \<^verbatim>\<open>int(fraction * n)\<close>, is 0, the choice is
  empty and \<^verbatim>\<open>sample\<close> fails with \<open>IndexError\<close> when it overwrites the last chosen
  index.
\<close>

theorem sample_empty_selection_with_derived_fails:
  assumes "0 \<le> fraction" and "fraction \<le> 1"
    and "py_int (fraction * real (gpm_n g)) = 0"
    and "valid_choice (gpm_n g) 0 (fst (np_choice X r (gpm_n g) 0))"
  shows "fst (sample X upper g n_samples None fraction True r) = Inl IndexError"
  using assms
  by (auto simp add: sample_def select_indices_def valid_choice_def Let_def split: prod.splits)

theorem sample_empty_selection_with_derived_fails_witness:
  "\<exists>g. construct ''AA'' [''AA'', ''AT'', ''TA'', ''TT''] [0, 1, 1, 2] (Some [0.1, 0.1, 0.1, 0.2])
          False None 4 (log 10) = Inr g \<and>
       py_int (1 / 5 * real (gpm_n g)) = 0 \<and>
       fst (sample \<lparr>np_choice = (\<lambda>r n k. (rev [0..<k], Suc r)), np_randn = (\<lambda>r. (0, Suc r))\<rparr>
              (\<lambda>e. []) g 5 None (1 / 5) True (0::nat)) = Inl IndexError \<and>
       fst (sample \<lparr>np_choice = (\<lambda>r n k. (rev [0..<k], Suc r)), np_randn = (\<lambda>r. (0, Suc r))\<rparr>
              (\<lambda>e. []) g 5 None 0 True (0::nat)) = Inl IndexError"
proof -
  have "\<exists>g. construct ''AA'' [''AA'', ''AT'', ''TA'', ''TT''] [0, 1, 1, 2] (Some [0.1, 0.1, 0.1, 0.2])
          False None 4 (log 10) = Inr g"
    by (rule construct_succeeds) simp_all
  then obtain g where
    c: "construct ''AA'' [''AA'', ''AT'', ''TA'', ''TT''] [0, 1, 1, 2] (Some [0.1, 0.1, 0.1, 0.2])
          False None 4 (log 10) = Inr g" ..
  have n: "gpm_n g = 4" using construct_Inr[OF c] by simp
  have p: "py_int (1 / 5 * real (gpm_n g)) = 0" by (simp add: n py_int_def)
  have p0: "py_int (0 * real (gpm_n g)) = 0" by (simp add: py_int_def)
  have v: "valid_choice (gpm_n g) 0
             (fst (np_choice \<lparr>np_choice = (\<lambda>r n k. (rev [0..<k], Suc r)), np_randn = (\<lambda>r. (0, Suc r))\<rparr>
                     (0::nat) (gpm_n g) 0))"
    by (simp add: valid_choice_def)
  have i1: "(0::real) \<le> 1 / 5" and i2: "(1 / 5 :: real) \<le> 1" and i3: "(0::real) \<le> 0"
    and i4: "(0::real) \<le> 1" by simp_all
  show ?thesis
    apply (rule exI[of _ g])
    apply (intro conjI)
       apply (rule c)
      apply (rule p)
     apply (rule sample_empty_selection_with_derived_fails[OF i1 i2 p v])
    apply (rule sample_empty_selection_with_derived_fails[OF i3 i4 p0 v])
    done
qed

section \<open>The uncertainty views under the log transform\<close>

text \<open>
  Claim C1, evaluated on the map of wildtype \<^verbatim>\<open>"AA"\<close> with genotypes
  \<^verbatim>\<open>["AA","AT","TA","TT"]\<close>, phenotypes \<^verbatim>\<open>[1, 10, 10, 100]\<close>, stdeviations
  \<^verbatim>\<open>[0.1, 0.1, 0.1, 0.2]\<close>, \<^verbatim>\<open>log_transform=True\<close>, 4 replicates and the logarithm
  to base 10. The map-level views are built from the raw phenotypes with
  \<open>log_transform\<close> true, and all four views receive the raw stdeviations; but the views
  of the raw map are built from \<^verbatim>\<open>self.phenotypes\<close>, the transformed phenotypes
  \<^verbatim>\<open>[0, 1, 1, 2]\<close>, not from the raw ones.
\<close>

theorem raw_uncertainty_built_from_transformed_phenotypes:
  "case construct ''AA'' [''AA'', ''AT'', ''TA'', ''TT''] [1, 10, 10, 100]
          (Some [0.1, 0.1, 0.1, 0.2]) True None 4 (log 10) of
     Inl e \<Rightarrow> False
   | Inr g \<Rightarrow>
       (case gpm_Raw g of
          None \<Rightarrow> False
        | Some raw \<Rightarrow>
            gpm_phenotypes g = [0, 1, 1, 2] \<and>
            raw_phenotypes raw = [1, 10, 10, 100] \<and>
            raw_stdeviations raw = Some (Some [0.1, 0.1, 0.1, 0.2]) \<and>
            raw_std raw = Some (StandardDeviationMap [0, 1, 1, 2] [0.1, 0.1, 0.1, 0.2] False (log 10)) \<and>
            raw_err raw = Some (StandardErrorMap [0, 1, 1, 2] [0.1, 0.1, 0.1, 0.2] False 4 (log 10)) \<and>
            raw_std raw \<noteq> Some (StandardDeviationMap [1, 10, 10, 100] [0.1, 0.1, 0.1, 0.2] False (log 10)) \<and>
            raw_err raw \<noteq> Some (StandardErrorMap [1, 10, 10, 100] [0.1, 0.1, 0.1, 0.2] False 4 (log 10)) \<and>
            gpm_std g = Some (StandardDeviationMap [1, 10, 10, 100] [0.1, 0.1, 0.1, 0.2] True (log 10)) \<and>
            gpm_err g = Some (StandardErrorMap [1, 10, 10, 100] [0.1, 0.1, 0.1, 0.2] True 4 (log 10)))"
proof -
  have "\<exists>g. construct ''AA'' [''AA'', ''AT'', ''TA'', ''TT''] [1, 10, 10, 100]
          (Some [0.1, 0.1, 0.1, 0.2]) True None 4 (log 10) = Inr g"
    by (rule construct_succeeds) simp_all
  then obtain g where
    c: "construct ''AA'' [''AA'', ''AT'', ''TA'', ''TT''] [1, 10, 10, 100]
          (Some [0.1, 0.1, 0.1, 0.2]) True None 4 (log 10) = Inr g" ..
  note f = construct_Inr[OF c] and v = construct_views[OF c]
  from f obtain raw where r: "gpm_Raw g = Some raw" by auto
  show ?thesis
    unfolding c sum.case r option.case
    using f v r by (simp add: log10_values)
qed

section \<open>Assigning the phenotypes their own value\<close>

lemma log10_ten_billion: "log 10 10000000000 = 10"
  using log_pow_cancel[of 10 10] by simp

text \<open>
  Claim C4, as the code has it. On a map constructed without \<open>log_transform\<close>,
  assigning the phenotypes their own current value, twice, succeeds and leaves the derived
  state (the raw view, the two uncertainty views and the binary view's phenotypes) as it
  was, after the first assignment and after the second.
\<close>

theorem reassigning_phenotypes_without_log_transform:
  assumes "construct wt gs ps sd False muts nr lb = Inr g"
  shows "\<exists>g1 g2. phenotypes_setter (PArray (gpm_phenotypes g)) g = Inr g1 \<and>
           phenotypes_setter (PArray (gpm_phenotypes g1)) g1 = Inr g2 \<and>
           gpm_phenotypes g2 = gpm_phenotypes g \<and>
           derived_state g1 = derived_state g \<and>
           derived_state g2 = derived_state g"
proof -
  note f = construct_Inr[OF assms]
  have l: "length (gpm_phenotypes g) = length (gpm_genotypes g)" using f by simp
  have nl: "\<not> gpm_log_transform g" using f by simp
  have b: "map_option bin_phenotypes (gpm_Binary g) = Some (gpm_phenotypes g)" using f by simp
  define g1 where "g1 = store_phenotypes (gpm_phenotypes g) g"
  have s1: "phenotypes_setter (PArray (gpm_phenotypes g)) g = Inr g1"
    using l by (simp add: phenotypes_setter_def resolve_phenotypes_def g1_def)
  have p1: "gpm_phenotypes g1 = gpm_phenotypes g" "gpm_genotypes g1 = gpm_genotypes g"
    "\<not> gpm_log_transform g1"
    using nl by (simp_all add: g1_def store_phenotypes_fields)
  have d1: "derived_state g1 = derived_state g"
    using nl b by (auto simp add: derived_state_def g1_def store_phenotypes_fields
        option.map_comp comp_def)
  define g2 where "g2 = store_phenotypes (gpm_phenotypes g1) g1"
  have s2: "phenotypes_setter (PArray (gpm_phenotypes g1)) g1 = Inr g2"
    using l p1 by (simp add: phenotypes_setter_def resolve_phenotypes_def g2_def)
  have b1: "map_option bin_phenotypes (gpm_Binary g1) = Some (gpm_phenotypes g1)"
    using d1 b p1 by (simp add: derived_state_def)
  have d2: "derived_state g2 = derived_state g1"
    using p1 b1 by (auto simp add: derived_state_def g2_def store_phenotypes_fields
        option.map_comp comp_def)
  have p2: "gpm_phenotypes g2 = gpm_phenotypes g"
    using p1 by (simp add: g2_def store_phenotypes_fields)
  from s1 s2 p2 d1 d2 show ?thesis by auto
qed

theorem reassigning_phenotypes_without_log_transform_witness:
  "\<exists>g g1 g2.
     construct ''AA'' [''AA'', ''AT'', ''TA'', ''TT''] [0, 1, 1, 2] (Some [0.1, 0.1, 0.1, 0.2])
       False None 4 (log 10) = Inr g \<and>
     phenotypes_setter (PArray (gpm_phenotypes g)) g = Inr g1 \<and>
     phenotypes_setter (PArray (gpm_phenotypes g1)) g1 = Inr g2 \<and>
     gpm_phenotypes g2 = [0, 1, 1, 2] \<and>
     derived_state g2 = derived_state g"
proof -
  have "\<exists>g. construct ''AA'' [''AA'', ''AT'', ''TA'', ''TT''] [0, 1, 1, 2] (Some [0.1, 0.1, 0.1, 0.2])
       False None 4 (log 10) = Inr g"
    by (rule construct_succeeds) simp_all
  then obtain g where
    c: "construct ''AA'' [''AA'', ''AT'', ''TA'', ''TT''] [0, 1, 1, 2] (Some [0.1, 0.1, 0.1, 0.2])
       False None 4 (log 10) = Inr g" ..
  from reassigning_phenotypes_without_log_transform[OF c] obtain g1 g2 where
    s: "phenotypes_setter (PArray (gpm_phenotypes g)) g = Inr g1"
       "phenotypes_setter (PArray (gpm_phenotypes g1)) g1 = Inr g2"
       "gpm_phenotypes g2 = gpm_phenotypes g"
       "derived_state g2 = derived_state g"
    by blast
  have p: "gpm_phenotypes g = [0, 1, 1, 2]" using construct_Inr[OF c] by simp
  show ?thesis
    apply (rule exI[of _ g], rule exI[of _ g1], rule exI[of _ g2])
    using c s p by simp
qed

text \<open>
  Claim C4 as stated fails under \<open>log_transform\<close>: the setter takes its argument for
  raw phenotypes, so assigning the transformed phenotypes puts them into the raw view and
  transforms them once more. With raw phenotypes \<open>10\<^sup>1\<^sup>0\<close> the raw view goes from
  \<open>10\<^sup>1\<^sup>0\<close> to 1 and the binary view's phenotypes from 10 to 0.
\<close>

theorem reassigning_phenotypes_under_log_transform_changes_raw_view:
  "case construct ''AA'' [''AA'', ''AT'', ''TA'', ''TT'']
          [10000000000, 10000000000, 10000000000, 10000000000] None True None 1 (log 10) of
     Inl e \<Rightarrow> False
   | Inr g \<Rightarrow>
       (case phenotypes_setter (PArray (gpm_phenotypes g)) g of
          Inl e \<Rightarrow> False
        | Inr g1 \<Rightarrow>
            (case phenotypes_setter (PArray (gpm_phenotypes g1)) g1 of
               Inl e \<Rightarrow> False
             | Inr g2 \<Rightarrow>
                 gpm_phenotypes g = [10, 10, 10, 10] \<and>
                 map_option raw_phenotypes (gpm_Raw g) =
                   Some [10000000000, 10000000000, 10000000000, 10000000000] \<and>
                 gpm_phenotypes g2 = [0, 0, 0, 0] \<and>
                 map_option raw_phenotypes (gpm_Raw g2) = Some [1, 1, 1, 1] \<and>
                 map_option bin_phenotypes (gpm_Binary g) = Some [10, 10, 10, 10] \<and>
                 map_option bin_phenotypes (gpm_Binary g2) = Some [0, 0, 0, 0] \<and>
                 derived_state g2 \<noteq> derived_state g))"
proof -
  have "\<exists>g. construct ''AA'' [''AA'', ''AT'', ''TA'', ''TT'']
          [10000000000, 10000000000, 10000000000, 10000000000] None True None 1 (log 10) = Inr g"
    by (rule construct_succeeds) simp_all
  then obtain g where
    c: "construct ''AA'' [''AA'', ''AT'', ''TA'', ''TT'']
          [10000000000, 10000000000, 10000000000, 10000000000] None True None 1 (log 10) = Inr g" ..
  note f = construct_Inr[OF c]
  define g1 where "g1 = store_phenotypes (gpm_phenotypes g) g"
  define g2 where "g2 = store_phenotypes (gpm_phenotypes g1) g1"
  have p: "gpm_phenotypes g = [10, 10, 10, 10]"
    using f by (simp add: log10_ten_billion)
  have s1: "phenotypes_setter (PArray (gpm_phenotypes g)) g = Inr g1"
    using f by (simp add: phenotypes_setter_def resolve_phenotypes_def g1_def)
  have p1: "gpm_phenotypes g1 = [1, 1, 1, 1]" "gpm_genotypes g1 = gpm_genotypes g"
    "gpm_log_transform g1" "gpm_logbase g1 = log 10"
    "map_option raw_phenotypes (gpm_Raw g1) = Some [10, 10, 10, 10]"
    using f p by (simp_all add: g1_def store_phenotypes_fields new_RawMap_def)
  have s2: "phenotypes_setter (PArray (gpm_phenotypes g1)) g1 = Inr g2"
    using f p1 by (simp add: phenotypes_setter_def resolve_phenotypes_def g2_def)
  have p2: "gpm_phenotypes g2 = [0, 0, 0, 0]"
    "map_option raw_phenotypes (gpm_Raw g2) = Some [1, 1, 1, 1]"
    using p1 by (simp_all add: g2_def store_phenotypes_fields new_RawMap_def)
  have b: "map_option bin_phenotypes (gpm_Binary g) = Some [10, 10, 10, 10]"
    using f by (simp add: log10_ten_billion)
  have b1: "gpm_Binary g1 \<noteq> None"
    using b by (auto simp add: g1_def store_phenotypes_fields)
  have b2: "map_option bin_phenotypes (gpm_Binary g2) = Some [0, 0, 0, 0]"
    using b1 p1 by (auto simp add: g2_def store_phenotypes_fields)
  have r: "map_option raw_phenotypes (gpm_Raw g) =
             Some [10000000000, 10000000000, 10000000000, 10000000000]"
    using f by simp
  have d: "derived_state g2 \<noteq> derived_state g"
  proof
    assume "derived_state g2 = derived_state g"
    then have "gpm_Raw g2 = gpm_Raw g" by (simp add: derived_state_def)
    with p2 r show False by simp
  qed
  show ?thesis
    unfolding c sum.case s1 s2
    using p r p2 b b2 d by simp
qed

section \<open>Sizes after construction and after assignments\<close>

lemma if_dict_elements_length:
  "if_dict_elements gs d js = Inr vs \<Longrightarrow> length vs = length js"
  by (induction js arbitrary: vs) (auto split: if_splits option.splits sum.splits)

lemma resolve_phenotypes_length:
  assumes "resolve_phenotypes g arg = Inr vs" and "length (gpm_genotypes g) = gpm_n g"
  shows "length vs = gpm_n g"
  using assms
  by (cases arg) (auto simp add: resolve_phenotypes_def if_dict_def
      dest: if_dict_elements_length split: if_splits)

text \<open>
  Claim C8, as the code has it. A constructed map has as many genotypes and as many
  phenotypes as \<open>n\<close>, its indices are \<open>0..n-1\<close>, and its complete genotypes are its
  genotypes followed by its missing genotypes. An assignment to a property that succeeds
  keeps the number of genotypes equal to \<open>n\<close>, the indices \<open>0..n-1\<close> and the
  concatenation; it keeps the number of phenotypes equal to \<open>n\<close> exactly when it leaves
  \<open>n\<close> as it was, since the genotypes setter does not touch the phenotypes.
\<close>

theorem sizes_after_construction_and_assignment:
  "(construct wt gs ps sd lt muts nr lb = Inr g \<longrightarrow>
      length (gpm_genotypes g) = gpm_n g \<and> length (gpm_phenotypes g) = gpm_n g \<and>
      gpm_indices g = [0..<gpm_n g] \<and>
      complete_genotypes g = gpm_genotypes g @ gpm_missing_genotypes g \<and>
      length (complete_genotypes g) = length (gpm_genotypes g) + length (gpm_missing_genotypes g)) \<and>
   (length (gpm_genotypes h) = gpm_n h \<and> gpm_indices h = [0..<gpm_n h] \<and>
    assign c h = (None, h') \<longrightarrow>
      length (gpm_genotypes h') = gpm_n h' \<and> gpm_indices h' = [0..<gpm_n h'] \<and>
      complete_genotypes h' = gpm_genotypes h' @ gpm_missing_genotypes h' \<and>
      length (complete_genotypes h') = length (gpm_genotypes h') + length (gpm_missing_genotypes h') \<and>
      (length (gpm_phenotypes h) = gpm_n h \<longrightarrow>
         (length (gpm_phenotypes h') = gpm_n h' \<longleftrightarrow> gpm_n h' = gpm_n h)))"
proof (intro conjI impI)
  assume "construct wt gs ps sd lt muts nr lb = Inr g"
  note f = construct_Inr[OF this]
  show "length (gpm_genotypes g) = gpm_n g" "length (gpm_phenotypes g) = gpm_n g"
    "gpm_indices g = [0..<gpm_n g]"
    using f by auto
next
  show "complete_genotypes g = gpm_genotypes g @ gpm_missing_genotypes g"
    "length (complete_genotypes g) = length (gpm_genotypes g) + length (gpm_missing_genotypes g)"
    "complete_genotypes h' = gpm_genotypes h' @ gpm_missing_genotypes h'"
    "length (complete_genotypes h') = length (gpm_genotypes h') + length (gpm_missing_genotypes h')"
    by (simp_all add: complete_genotypes_def)
next
  assume a: "length (gpm_genotypes h) = gpm_n h \<and> gpm_indices h = [0..<gpm_n h] \<and>
    assign c h = (None, h')"
  show "length (gpm_genotypes h') = gpm_n h'" "gpm_indices h' = [0..<gpm_n h']"
    using a
    by (cases c; auto simp add: genotypes_setter_def phenotypes_setter_def store_phenotypes_fields
        wildtype_setter_def mutations_setter_def log_transform_setter_def n_replicates_setter_def
        Let_def split: list.splits sum.splits)+
  assume b: "length (gpm_phenotypes h) = gpm_n h"
  show "length (gpm_phenotypes h') = gpm_n h' \<longleftrightarrow> gpm_n h' = gpm_n h"
  proof (cases c)
    case (SetPhenotypes arg)
    with a obtain vs where r: "resolve_phenotypes h arg = Inr vs" and h': "h' = store_phenotypes vs h"
      by (auto simp add: phenotypes_setter_def split: sum.splits)
    from resolve_phenotypes_length[OF r] a have "length vs = gpm_n h" by simp
    then show ?thesis by (simp add: h' store_phenotypes_fields)
  next
    case (SetGenotypes x)
    with a b show ?thesis
      by (auto simp add: genotypes_setter_def Let_def split: list.splits)
  qed (use a b in \<open>auto simp add: wildtype_setter_def mutations_setter_def
        log_transform_setter_def n_replicates_setter_def\<close>)
qed

theorem sizes_after_construction_and_assignment_witness:
  "\<exists>g h1 h2.
     construct ''AA'' [''AA'', ''TT''] [0, 2] None False None 1 (log 10) = Inr g \<and>
     gpm_n g = 2 \<and> length (gpm_genotypes g) = 2 \<and> length (gpm_phenotypes g) = 2 \<and>
     gpm_indices g = [0, 1] \<and>
     length (complete_genotypes g) = 2 + length (gpm_missing_genotypes g) \<and>
     assign (SetPhenotypes (PArray [5, 7])) g = (None, h1) \<and>
     gpm_n h1 = 2 \<and> length (gpm_genotypes h1) = 2 \<and> length (gpm_phenotypes h1) = 2 \<and>
     gpm_indices h1 = [0, 1] \<and>
     assign (SetGenotypes [''AA'', ''AT'', ''TT'']) h1 = (None, h2) \<and>
     gpm_n h2 = 3 \<and> length (gpm_genotypes h2) = 3 \<and> gpm_indices h2 = [0, 1, 2] \<and>
     length (gpm_phenotypes h2) \<noteq> gpm_n h2"
proof -
  have "\<exists>g. construct ''AA'' [''AA'', ''TT''] [0, 2] None False None 1 (log 10) = Inr g"
    by (rule construct_succeeds) simp_all
  then obtain g where
    c: "construct ''AA'' [''AA'', ''TT''] [0, 2] None False None 1 (log 10) = Inr g" ..
  have n: "gpm_n g = 2" "gpm_genotypes g = [''AA'', ''TT'']" using construct_Inr[OF c] by simp_all
  have i: "[0..<2] = [0, Suc 0]" by (simp add: upt_rec)
  have i3: "[0..<3] = [0, Suc 0, 2]" by (simp add: upt_rec)
  from sizes_after_construction_and_assignment[of "''AA''" "[''AA'', ''TT'']" "[0, 2]" None False
      None 1 "log 10" g] c
  have g: "length (gpm_genotypes g) = gpm_n g" "length (gpm_phenotypes g) = gpm_n g"
    "gpm_indices g = [0..<gpm_n g]"
    "length (complete_genotypes g) = length (gpm_genotypes g) + length (gpm_missing_genotypes g)"
    by simp_all
  define h1 where "h1 = store_phenotypes [5, 7] g"
  have a1: "assign (SetPhenotypes (PArray [5, 7])) g = (None, h1)"
    using n by (simp add: phenotypes_setter_def resolve_phenotypes_def h1_def)
  from sizes_after_construction_and_assignment[of _ _ _ _ _ _ _ _ _ g
      "SetPhenotypes (PArray [5, 7])" h1] g a1
  have h1: "length (gpm_genotypes h1) = gpm_n h1" "gpm_indices h1 = [0..<gpm_n h1]"
    "length (gpm_phenotypes h1) = gpm_n h1 \<longleftrightarrow> gpm_n h1 = gpm_n g"
    by simp_all
  have n1: "gpm_n h1 = 2" using n by (simp add: h1_def store_phenotypes_fields)
  obtain h2 where a2: "assign (SetGenotypes [''AA'', ''AT'', ''TT'']) h1 = (None, h2)"
    by (simp add: genotypes_setter_def Let_def)
  have n2: "gpm_n h2 = 3" using a2 by (auto simp add: genotypes_setter_def Let_def)
  from sizes_after_construction_and_assignment[of _ _ _ _ _ _ _ _ _ h1
      "SetGenotypes [''AA'', ''AT'', ''TT'']" h2] h1 a2 n1 n
  have h2: "length (gpm_genotypes h2) = gpm_n h2" "gpm_indices h2 = [0..<gpm_n h2]"
    "length (gpm_phenotypes h2) = gpm_n h2 \<longleftrightarrow> gpm_n h2 = gpm_n h1"
    by simp_all
  show ?thesis
    apply (rule exI[of _ g], rule exI[of _ h1], rule exI[of _ h2])
    using c g h1 h2 a1 a2 n n1 n2 by (simp add: i i3)
qed

text \<open>
  Claim C8 as stated fails after the genotypes setter: assigning two genotypes to a map of
  four leaves four phenotypes beside \<open>n = 2\<close>.
\<close>

theorem genotypes_setter_leaves_phenotypes_behind:
  "case construct ''AA'' [''AA'', ''AT'', ''TA'', ''TT''] [0, 1, 1, 2] None False None 1 (log 10) of
     Inl e \<Rightarrow> False
   | Inr g \<Rightarrow>
       (case assign (SetGenotypes [''AA'', ''TT'']) g of
          (Some e, h) \<Rightarrow> False
        | (None, h) \<Rightarrow>
            gpm_genotypes h = [''AA'', ''TT''] \<and> gpm_n h = 2 \<and>
            gpm_phenotypes h = [0, 1, 1, 2] \<and>
            length (gpm_phenotypes h) \<noteq> gpm_n h)"
proof -
  have "\<exists>g. construct ''AA'' [''AA'', ''AT'', ''TA'', ''TT''] [0, 1, 1, 2] None False None 1 (log 10) = Inr g"
    by (rule construct_succeeds) simp_all
  then obtain g where
    c: "construct ''AA'' [''AA'', ''AT'', ''TA'', ''TT''] [0, 1, 1, 2] None False None 1 (log 10) = Inr g" ..
  have p: "gpm_phenotypes g = [0, 1, 1, 2]" using construct_Inr[OF c] by simp
  show ?thesis
    unfolding c sum.case
    using p by (simp add: genotypes_setter_def Let_def)
qed

section \<open>Sampling the whole space\<close>

lemma sort_full_choice:
  assumes "valid_choice n n xs"
  shows "sort xs = [0..<n]"
proof -
  from assms have l: "length xs = n" and d: "distinct xs" and s: "set xs \<subseteq> {0..<n}"
    by (auto simp add: valid_choice_def)
  from d l have "card (set xs) = card {0..<n}" by (simp add: distinct_card)
  with s have e: "set xs = {0..<n}" by (simp add: card_subset_eq)
  have "sort xs = sorted_list_of_set (set xs)"
    using d by (simp add: sorted_list_of_set_sort_remdups distinct_remdups_id)
  then show ?thesis by (simp add: e)
qed

lemma randn_length: "randn X k r = (zs, r') \<Longrightarrow> length zs = k"
  by (induction k arbitrary: r zs r') (auto split: prod.splits)

lemma sample_rows_succeeds:
  assumes "error_distribution upper g = Some (stdevs, phens)"
    and "\<forall>i \<in> set idx. i < length (gpm_genotypes g) \<and> i < length stdevs \<and> i < length phens"
  shows "\<exists>rows r'. sample_rows X upper g k idx r = (Some rows, r') \<and>
           map fst rows = map (\<lambda>i. replicate k (take (gpm_length g) (gpm_genotypes g ! i))) idx \<and>
           length rows = length idx \<and> (\<forall>row \<in> set rows. length (snd row) = k)"
  using assms(2)
proof (induction idx arbitrary: r)
  case Nil
  then show ?case by simp
next
  case (Cons i idx)
  obtain noise r1 where n: "randn X k r = (noise, r1)" by (cases "randn X k r")
  from Cons obtain rows r' where
    "sample_rows X upper g k idx r1 = (Some rows, r')"
    "map fst rows = map (\<lambda>i. replicate k (take (gpm_length g) (gpm_genotypes g ! i))) idx"
    "length rows = length idx" "\<forall>row \<in> set rows. length (snd row) = k"
    by (metis list.set_intros(2))
  with Cons.prems assms(1) n randn_length[OF n] show ?case
    by (simp add: Let_def)
qed

lemma sample_rows_without_distribution:
  assumes "error_distribution upper g = None" and "idx \<noteq> []"
  shows "sample_rows X upper g k idx r = (None, r)"
  using assms by (cases idx) (simp_all add: Let_def)

lemma select_full_fraction:
  assumes "valid_choice (gpm_n g) (gpm_n g) (fst (np_choice X r (gpm_n g) (gpm_n g)))"
    and "0 < gpm_n g"
  shows "select_indices X g None 1 True r =
           (Inr [0..<gpm_n g], snd (np_choice X r (gpm_n g) (gpm_n g)))"
proof -
  obtain chosen r1 where ch: "np_choice X r (gpm_n g) (gpm_n g) = (chosen, r1)"
    by (cases "np_choice X r (gpm_n g) (gpm_n g)")
  have p: "nat (py_int (1 * real (gpm_n g))) = gpm_n g" by (simp add: py_int_def)
  have s: "sort chosen = [0..<gpm_n g]"
    using sort_full_choice[OF assms(1)] ch by simp
  have u: "[0..<gpm_n g][length [0..<gpm_n g] - 1 := gpm_n g - 1] = [0..<gpm_n g]"
    using assms(2) by (simp add: list_update_same_conv)
  show ?thesis
    using assms(2) p u
    by (simp add: select_indices_def Let_def ch s)
qed

text \<open>What \<open>sample\<close> hands to \<open>Sample_init\<close> for the whole space.\<close>

lemma sample_full_fraction_arrays:
  assumes c: "construct wt gs ps sd lt muts nr lb = Inr g"
    and e: "error_distribution upper g = Some (stdevs, phens)"
    and a: "length stdevs = gpm_n g"
    and v: "valid_choice (gpm_n g) (gpm_n g) (fst (np_choice X r (gpm_n g) (gpm_n g)))"
    and k: "0 \<le> n_samples"
  shows "\<exists>prows. length prows = gpm_n g \<and>
           fst (sample X upper g n_samples None 1 True r) =
             Sample_init g
               (Array2 (nat n_samples)
                  (map (\<lambda>i. replicate (nat n_samples) (take (gpm_length g) (gpm_genotypes g ! i)))
                     [0..<gpm_n g]))
               (Array2 (nat n_samples) prows) [0..<gpm_n g]"
proof -
  note f = construct_Inr[OF c] and w = construct_views[OF c]
  have n: "0 < gpm_n g" "length (gpm_genotypes g) = gpm_n g" using f by auto
  have pl: "length phens = gpm_n g"
    using e f by (auto simp add: error_distribution_def split: if_splits option.splits)
  have "\<forall>i \<in> set [0..<gpm_n g]. i < length (gpm_genotypes g) \<and> i < length stdevs \<and> i < length phens"
    using n a pl by simp
  from sample_rows_succeeds[OF e this, of X "nat n_samples" "snd (np_choice X r (gpm_n g) (gpm_n g))"]
  obtain rows r' where
    r: "sample_rows X upper g (nat n_samples) [0..<gpm_n g] (snd (np_choice X r (gpm_n g) (gpm_n g)))
          = (Some rows, r')"
    and m: "map fst rows =
          map (\<lambda>i. replicate (nat n_samples) (take (gpm_length g) (gpm_genotypes g ! i))) [0..<gpm_n g]"
    and l: "length rows = length [0..<gpm_n g]"
    by blast
  have "fst (sample X upper g n_samples None 1 True r) =
          Sample_init g (Array2 (nat n_samples) (map fst rows))
            (Array2 (nat n_samples) (map snd rows)) [0..<gpm_n g]"
    using k by (simp add: sample_def select_full_fraction[OF v n(1)] r)
  with m l show ?thesis by (intro exI[of _ "map snd rows"]) simp
qed

text \<open>
  Claim C5, as the code has it. Take a constructed map of \<open>n\<close> genotypes, all of the
  recorded length, whose error view read by \<^verbatim>\<open>sample\<close> is present with upper bounds
  aligned to the genotypes, and a choice that is \<open>n\<close> distinct members of
  \<^verbatim>\<open>range(n)\<close>. For \<open>n_samples\<close> at least 1,
  \<^verbatim>\<open>sample(n_samples, genotypes=None, fraction=1.0, derived=True)\<close> returns a sample
  whose replicate phenotypes have shape \<open>(n, n_samples)\<close>, whose indices are \<open>0..n-1\<close>
  and whose genotypes are the map's, the last one being \<^verbatim>\<open>genotypes[n-1]\<close>.
\<close>

theorem sample_whole_space_shape:
  assumes c: "construct wt gs ps sd lt muts nr lb = Inr g"
    and s: "\<forall>s \<in> set gs. length s = gpm_length g"
    and e: "map_option (\<lambda>(stdevs, phens). length stdevs) (error_distribution upper g) = Some (gpm_n g)"
    and v: "valid_choice (gpm_n g) (gpm_n g) (fst (np_choice X r (gpm_n g) (gpm_n g)))"
    and k: "1 \<le> n_samples"
  shows "\<exists>smp. fst (sample X upper g n_samples None 1 True r) = Inr smp \<and>
           shape (replicate_phenotypes smp) = [gpm_n g, nat n_samples] \<and>
           shape (replicate_genotypes smp) = [gpm_n g, nat n_samples] \<and>
           sample_indices smp = [0..<gpm_n g] \<and>
           sample_genotypes smp = gpm_genotypes g \<and>
           last (sample_genotypes smp) = gpm_genotypes g ! (gpm_n g - 1)"
proof -
  note f = construct_Inr[OF c]
  from e obtain stdevs phens where
    d: "error_distribution upper g = Some (stdevs, phens)" and a: "length stdevs = gpm_n g"
    by auto
  have k0: "0 \<le> n_samples" and k1: "nat n_samples \<noteq> 0" using k by simp_all
  from sample_full_fraction_arrays[OF c d a v k0] obtain prows where
    l: "length prows = gpm_n g" and
    r: "fst (sample X upper g n_samples None 1 True r) =
             Sample_init g
               (Array2 (nat n_samples)
                  (map (\<lambda>i. replicate (nat n_samples) (take (gpm_length g) (gpm_genotypes g ! i)))
                     [0..<gpm_n g]))
               (Array2 (nat n_samples) prows) [0..<gpm_n g]"
    by blast
  have gn: "length (gpm_genotypes g) = gpm_n g" and gg: "gpm_genotypes g = gs" and ne: "gs \<noteq> []"
    using f by simp_all
  have t: "take (gpm_length g) (gpm_genotypes g ! i) = gpm_genotypes g ! i" if "i < gpm_n g" for i
  proof -
    from that gn gg have "gpm_genotypes g ! i \<in> set gs" by (metis nth_mem)
    with s show ?thesis by simp
  qed
  have "map (\<lambda>i. replicate (nat n_samples) (take (gpm_length g) (gpm_genotypes g ! i)) ! 0)
          [0..<gpm_n g]
        = map (\<lambda>i. gpm_genotypes g ! i) [0..<gpm_n g]"
  proof (rule map_cong[OF refl])
    fix i assume "i \<in> set [0..<gpm_n g]"
    then have "i < gpm_n g" by simp
    from t[OF this] k1 show
      "replicate (nat n_samples) (take (gpm_length g) (gpm_genotypes g ! i)) ! 0 = gpm_genotypes g ! i"
      by simp
  qed
  also have "\<dots> = gpm_genotypes g" unfolding gn[symmetric] by (rule map_nth)
  finally have m: "map (\<lambda>i. replicate (nat n_samples) (take (gpm_length g) (gpm_genotypes g ! i)) ! 0)
          [0..<gpm_n g] = gpm_genotypes g" .
  have la: "last (gpm_genotypes g) = gpm_genotypes g ! (gpm_n g - 1)"
    using gn gg ne by (simp add: last_conv_nth)
  define smp where "smp =
    \<lparr>sample_gpm = g,
     replicate_genotypes = Array2 (nat n_samples)
        (map (\<lambda>i. replicate (nat n_samples) (take (gpm_length g) (gpm_genotypes g ! i)))
           [0..<gpm_n g]),
     replicate_phenotypes = Array2 (nat n_samples) prows,
     sample_genotypes = map (\<lambda>row. row ! 0)
        (map (\<lambda>i. replicate (nat n_samples) (take (gpm_length g) (gpm_genotypes g ! i)))
           [0..<gpm_n g]),
     sample_phenotypes = map mean prows,
     sample_stdeviations = map std_ddof1 prows,
     sample_indices = [0..<gpm_n g]\<rparr>"
  have r': "fst (sample X upper g n_samples None 1 True r) = Inr smp"
    unfolding r Sample_init_def smp_def using k1 by simp
  have sg: "sample_genotypes smp = gpm_genotypes g"
    unfolding smp_def using m by (simp only: Sample.simps map_map comp_def)
  have sh: "shape (replicate_phenotypes smp) = [gpm_n g, nat n_samples]"
    "shape (replicate_genotypes smp) = [gpm_n g, nat n_samples]"
    "sample_indices smp = [0..<gpm_n g]"
    unfolding smp_def using l by (simp_all add: shape_def)
  from r' sg sh la show ?thesis by auto
qed

theorem sample_whole_space_shape_witness:
  "\<exists>g smp.
     construct ''AA'' [''AA'', ''AT'', ''TA'', ''TT''] [0, 1, 1, 2] (Some [0.1, 0.1, 0.1, 0.2])
       False None 4 (log 10) = Inr g \<and>
     fst (sample \<lparr>np_choice = (\<lambda>r n k. (rev [0..<k], Suc r)), np_randn = (\<lambda>r. (0, Suc r))\<rparr>
            (\<lambda>e. case e of StandardDeviationMap p s l b \<Rightarrow> s | StandardErrorMap p s l n b \<Rightarrow> s)
            g 5 None 1 True (0::nat)) = Inr smp \<and>
     shape (replicate_phenotypes smp) = [4, 5] \<and>
     sample_indices smp = [0, 1, 2, 3] \<and>
     sample_genotypes smp = [''AA'', ''AT'', ''TA'', ''TT''] \<and>
     last (sample_genotypes smp) = ''TT''"
proof -
  define X :: "nat random_source" where
    "X = \<lparr>np_choice = (\<lambda>r n k. (rev [0..<k], Suc r)), np_randn = (\<lambda>r. (0, Suc r))\<rparr>"
  define upper :: "errmap \<Rightarrow> real list" where
    "upper = (\<lambda>e. case e of StandardDeviationMap p s l b \<Rightarrow> s | StandardErrorMap p s l n b \<Rightarrow> s)"
  have "\<exists>g. construct ''AA'' [''AA'', ''AT'', ''TA'', ''TT''] [0, 1, 1, 2] (Some [0.1, 0.1, 0.1, 0.2])
       False None 4 (log 10) = Inr g"
    by (rule construct_succeeds) simp_all
  then obtain g where
    c: "construct ''AA'' [''AA'', ''AT'', ''TA'', ''TT''] [0, 1, 1, 2] (Some [0.1, 0.1, 0.1, 0.2])
       False None 4 (log 10) = Inr g" ..
  note f = construct_Inr[OF c] and w = construct_views[OF c]
  have n: "gpm_n g = 4" "gpm_genotypes g = [''AA'', ''AT'', ''TA'', ''TT'']" "gpm_length g = 2"
    "\<not> gpm_log_transform g"
    using f by simp_all
  have s: "\<forall>s \<in> set [''AA'', ''AT'', ''TA'', ''TT'']. length s = gpm_length g"
    by (simp add: n)
  have e: "map_option (\<lambda>(stdevs, phens). length stdevs) (error_distribution upper g) = Some (gpm_n g)"
    using w n by (simp add: error_distribution_def upper_def)
  have v: "valid_choice (gpm_n g) (gpm_n g) (fst (np_choice X (0::nat) (gpm_n g) (gpm_n g)))"
    by (simp add: valid_choice_def X_def)
  have k: "(1::int) \<le> 5" by simp
  have i: "[0..<4] = [0, Suc 0, 2, 3]" by (simp add: upt_rec)
  from sample_whole_space_shape[OF c s e v k] obtain smp where
    "fst (sample X upper g 5 None 1 True 0) = Inr smp"
    "shape (replicate_phenotypes smp) = [gpm_n g, nat 5]"
    "sample_indices smp = [0..<gpm_n g]"
    "sample_genotypes smp = gpm_genotypes g"
    by blast
  then have "fst (sample X upper g 5 None 1 True 0) = Inr smp \<and>
     shape (replicate_phenotypes smp) = [4, 5] \<and>
     sample_indices smp = [0, 1, 2, 3] \<and>
     sample_genotypes smp = [''AA'', ''AT'', ''TA'', ''TT''] \<and>
     last (sample_genotypes smp) = ''TT''"
    by (simp add: n i)
  with c show ?thesis unfolding X_def upper_def by blast
qed

text \<open>
  Claim C5 as stated fails for \<open>n_samples = 0\<close>: the arrays have no column and
  \<^verbatim>\<open>Sample.__init__\<close> raises on \<^verbatim>\<open>replicate_genotypes[:,0]\<close>.
\<close>

theorem sample_of_no_replicates_fails:
  "case construct ''AA'' [''AA'', ''AT'', ''TA'', ''TT''] [0, 1, 1, 2] (Some [0.1, 0.1, 0.1, 0.2])
          False None 4 (log 10) of
     Inl e \<Rightarrow> False
   | Inr g \<Rightarrow>
       fst (sample \<lparr>np_choice = (\<lambda>r n k. (rev [0..<k], Suc r)), np_randn = (\<lambda>r. (0, Suc r))\<rparr>
              (\<lambda>e. case e of StandardDeviationMap p s l b \<Rightarrow> s | StandardErrorMap p s l n b \<Rightarrow> s)
              g 0 None 1 True (0::nat)) = Inl IndexError"
proof -
  define X :: "nat random_source" where
    "X = \<lparr>np_choice = (\<lambda>r n k. (rev [0..<k], Suc r)), np_randn = (\<lambda>r. (0, Suc r))\<rparr>"
  define upper :: "errmap \<Rightarrow> real list" where
    "upper = (\<lambda>e. case e of StandardDeviationMap p s l b \<Rightarrow> s | StandardErrorMap p s l n b \<Rightarrow> s)"
  have "\<exists>g. construct ''AA'' [''AA'', ''AT'', ''TA'', ''TT''] [0, 1, 1, 2] (Some [0.1, 0.1, 0.1, 0.2])
       False None 4 (log 10) = Inr g"
    by (rule construct_succeeds) simp_all
  then obtain g where
    c: "construct ''AA'' [''AA'', ''AT'', ''TA'', ''TT''] [0, 1, 1, 2] (Some [0.1, 0.1, 0.1, 0.2])
       False None 4 (log 10) = Inr g" ..
  note f = construct_Inr[OF c] and w = construct_views[OF c]
  have n: "gpm_n g = 4" "\<not> gpm_log_transform g" using f by simp_all
  have e: "error_distribution upper g = Some ([0.1, 0.1, 0.1, 0.2], gpm_phenotypes g)"
    using w n by (simp add: error_distribution_def upper_def)
  have a: "length [0.1, 0.1, 0.1, 0.2 :: real] = gpm_n g" by (simp add: n)
  have v: "valid_choice (gpm_n g) (gpm_n g) (fst (np_choice X (0::nat) (gpm_n g) (gpm_n g)))"
    by (simp add: valid_choice_def X_def)
  from sample_full_fraction_arrays[OF c e a v, of 0] obtain rg rp where
    "fst (sample X upper g 0 None 1 True 0) = Sample_init g (Array2 (nat 0) rg) (Array2 (nat 0) rp) [0..<gpm_n g]"
    by blast
  then have "fst (sample X upper g 0 None 1 True 0) = Inl IndexError"
    by (simp add: Sample_init_def)
  then show ?thesis unfolding c sum.case X_def upper_def .
qed

section \<open>Sampling without an uncertainty view\<close>

lemma construct_without_stdeviations:
  assumes "construct wt gs ps None lt muts nr lb = Inr g"
  shows "error_distribution upper g = None"
proof -
  note w = construct_views[OF assms] and f = construct_Inr[OF assms]
  show ?thesis
  proof (cases lt)
    case True
    with w f show ?thesis
      by (auto simp add: error_distribution_def split: option.splits)
  next
    case False
    with w f show ?thesis by (simp add: error_distribution_def)
  qed
qed

lemma take_at_error: "take_at xs js = Inl e \<Longrightarrow> e = IndexError"
  by (induction js) (auto split: if_splits sum.splits)

lemma Sample_init_Array1: "Sample_init g (Array1 xs) p idx = Inl IndexError"
  by (simp add: Sample_init_def)

text \<open>
  Claim C6, on the code. On a map constructed without stdeviations, whenever at least one
  index is selected, \<^verbatim>\<open>sample\<close> never returns: the first row raises in the
  \<^verbatim>\<open>try\<close>; with \<open>n_samples\<close> other than 1 the handler raises the error of the
  claim, and with \<open>n_samples = 1\<close> it puts the recorded values into arrays of one
  dimension, on which \<^verbatim>\<open>Sample.__init__\<close> raises \<open>IndexError\<close>.
\<close>

theorem sample_without_uncertainty_never_returns:
  assumes c: "construct wt gs ps None lt muts nr lb = Inr g"
    and s: "select_indices X g genotypes fraction derived r = (Inr idx, r1)"
    and n: "idx \<noteq> []"
  shows "fst (sample X upper g n_samples genotypes fraction derived r) =
           Inl (if n_samples < 0 then NegativeDimensions
                else if n_samples = 1 then IndexError
                else NoSampleError)"
proof -
  have e: "error_distribution upper g = None"
    by (rule construct_without_stdeviations[OF c])
  have r: "sample_rows X upper g (nat n_samples) idx r1 = (None, r1)"
    by (rule sample_rows_without_distribution[OF e n])
  have t: "fst (case take_at (gpm_genotypes g) idx of
                  Inl e \<Rightarrow> (Inl e, r1)
                | Inr gs \<Rightarrow>
                    (case take_at (gpm_phenotypes g) idx of
                       Inl e \<Rightarrow> (Inl e, r1)
                     | Inr ps \<Rightarrow> (Sample_init g (Array1 gs) (Array1 ps) idx, r1)))
           = Inl IndexError"
    by (auto simp add: Sample_init_Array1 split: sum.splits dest: take_at_error)
  show ?thesis
    using t by (simp add: sample_def s r)
qed

theorem sample_without_uncertainty_never_returns_witness:
  "\<exists>g. construct ''AA'' [''AA'', ''AT'', ''TA'', ''TT''] [0, 1, 1, 2] None False None 1 (log 10) = Inr g \<and>
       fst (sample \<lparr>np_choice = (\<lambda>r n k. (rev [0..<k], Suc r)), np_randn = (\<lambda>r. (0, Suc r))\<rparr>
              (\<lambda>e. case e of StandardDeviationMap p s l b \<Rightarrow> s | StandardErrorMap p s l n b \<Rightarrow> s)
              g 1 None 1 True (0::nat)) = Inl IndexError \<and>
       fst (sample \<lparr>np_choice = (\<lambda>r n k. (rev [0..<k], Suc r)), np_randn = (\<lambda>r. (0, Suc r))\<rparr>
              (\<lambda>e. case e of StandardDeviationMap p s l b \<Rightarrow> s | StandardErrorMap p s l n b \<Rightarrow> s)
              g 5 None 1 True (0::nat)) = Inl NoSampleError"
proof -
  define X :: "nat random_source" where
    "X = \<lparr>np_choice = (\<lambda>r n k. (rev [0..<k], Suc r)), np_randn = (\<lambda>r. (0, Suc r))\<rparr>"
  define upper :: "errmap \<Rightarrow> real list" where
    "upper = (\<lambda>e. case e of StandardDeviationMap p s l b \<Rightarrow> s | StandardErrorMap p s l n b \<Rightarrow> s)"
  have "\<exists>g. construct ''AA'' [''AA'', ''AT'', ''TA'', ''TT''] [0, 1, 1, 2] None False None 1 (log 10) = Inr g"
    by (rule construct_succeeds) simp_all
  then obtain g where
    c: "construct ''AA'' [''AA'', ''AT'', ''TA'', ''TT''] [0, 1, 1, 2] None False None 1 (log 10) = Inr g" ..
  have n: "gpm_n g = 4" using construct_Inr[OF c] by simp
  have v: "valid_choice (gpm_n g) (gpm_n g) (fst (np_choice X (0::nat) (gpm_n g) (gpm_n g)))"
    by (simp add: valid_choice_def X_def)
  have p: "0 < gpm_n g" by (simp add: n)
  have s: "select_indices X g None 1 True 0 = (Inr [0..<gpm_n g], snd (np_choice X 0 (gpm_n g) (gpm_n g)))"
    by (rule select_full_fraction[OF v p])
  have i: "[0..<gpm_n g] \<noteq> []" by (simp add: n)
  have "fst (sample X upper g 1 None 1 True 0) = Inl IndexError"
    using sample_without_uncertainty_never_returns[OF c s i, of upper 1] by simp
  moreover have "fst (sample X upper g 5 None 1 True 0) = Inl NoSampleError"
    using sample_without_uncertainty_never_returns[OF c s i, of upper 5] by simp
  ultimately show ?thesis using c unfolding X_def upper_def by blast
qed

section \<open>Subspaces between two genotypes\<close>

lemma length_site_alphabets: "length (site_alphabets a b) = length a"
  by (induction a b rule: site_alphabets.induct) simp_all

lemma encode_binary_mutations_map:
  "encode_mutations a (binary_mutations_map a b) = site_alphabets a b"
proof (rule nth_equalityI)
  show "length (encode_mutations a (binary_mutations_map a b)) = length (site_alphabets a b)"
    by (simp add: encode_mutations_def length_site_alphabets)
next
  fix i assume "i < length (encode_mutations a (binary_mutations_map a b))"
  then have i: "i < length a" by (simp add: encode_mutations_def)
  have "map_of (zip [0..<length a] (site_alphabets a b)) ([0..<length a] ! i)
          = Some (site_alphabets a b ! i)"
    using i by (intro map_of_zip_nth) (simp_all add: length_site_alphabets)
  then show "encode_mutations a (binary_mutations_map a b) ! i = site_alphabets a b ! i"
    using i by (simp add: encode_mutations_def binary_mutations_map_def)
qed

lemma length_construct_genotypes:
  "length (construct_genotypes enc) = prod_list (map length enc)"
proof (induction enc)
  case Nil
  then show ?case by simp
next
  case (Cons alphabet enc)
  have "length (concat (map (\<lambda>symbol. map ((#) symbol) (construct_genotypes enc)) alphabet))
          = length alphabet * length (construct_genotypes enc)"
    by (induction alphabet) simp_all
  with Cons show ?case by simp
qed

lemma prod_site_alphabets:
  assumes "length a = length b"
  shows "prod_list (map length (site_alphabets a b)) = 2 ^ hamming_distance a b"
  using assms
  by (induction a b rule: list_induct2) (simp_all add: hamming_distance_def)

lemma set_construct_genotypes:
  "set (construct_genotypes enc) =
     {s. length s = length enc \<and> (\<forall>i < length enc. s ! i \<in> set (enc ! i))}"
proof (induction enc)
  case Nil
  then show ?case by auto
next
  case (Cons alphabet enc)
  show ?case
  proof (intro set_eqI iffI)
    fix s assume "s \<in> set (construct_genotypes (alphabet # enc))"
    then obtain x t where s: "s = x # t" and x: "x \<in> set alphabet"
      and t: "t \<in> set (construct_genotypes enc)"
      by auto
    from t Cons have "length t = length enc" "\<forall>i < length enc. t ! i \<in> set (enc ! i)" by auto
    with s x show "s \<in> {s. length s = length (alphabet # enc) \<and>
                       (\<forall>i < length (alphabet # enc). s ! i \<in> set ((alphabet # enc) ! i))}"
      by (auto simp add: nth_Cons split: nat.splits)
  next
    fix s assume a: "s \<in> {s. length s = length (alphabet # enc) \<and>
                       (\<forall>i < length (alphabet # enc). s ! i \<in> set ((alphabet # enc) ! i))}"
    then obtain x t where s: "s = x # t" by (cases s) auto
    from a s have x: "x \<in> set alphabet" by auto
    from a s have "length t = length enc" by simp
    moreover from a s have "\<forall>i < length enc. t ! i \<in> set (enc ! i)" by fastforce
    ultimately have "t \<in> set (construct_genotypes enc)" using Cons by simp
    with x s show "s \<in> set (construct_genotypes (alphabet # enc))" by auto
  qed
qed

lemma set_site_alphabets_nth:
  assumes "length a = length b" and "i < length a"
  shows "set (site_alphabets a b ! i) = {a ! i, b ! i}"
  using assms
proof (induction a b arbitrary: i rule: list_induct2)
  case Nil
  then show ?case by simp
next
  case (Cons x xs y ys)
  then show ?case by (cases i) auto
qed

lemma construct_genotypes_sublattice:
  assumes "length a = length b"
  shows "set (construct_genotypes (site_alphabets a b)) = sublattice a b"
  using set_site_alphabets_nth[OF assms]
  by (auto simp add: set_construct_genotypes sublattice_def length_site_alphabets)

lemma distinct_construct_genotypes:
  assumes "\<forall>alphabet \<in> set enc. distinct alphabet"
  shows "distinct (construct_genotypes enc)"
  using assms
proof (induction enc)
  case Nil
  then show ?case by simp
next
  case (Cons alphabet enc)
  then have d: "distinct (construct_genotypes enc)" and a: "distinct alphabet" by simp_all
  have "distinct (concat (map (\<lambda>symbol. map ((#) symbol) (construct_genotypes enc)) alphabet))"
    using a
  proof (induction alphabet)
    case Nil
    then show ?case by simp
  next
    case (Cons x xs)
    then show ?case using d by (auto simp add: distinct_map)
  qed
  then show ?case by simp
qed

lemma distinct_site_alphabets: "\<forall>alphabet \<in> set (site_alphabets a b). distinct alphabet"
  by (induction a b rule: site_alphabets.induct) auto

lemma lookup_all_found:
  assumes "\<forall>g \<in> set gs. mapping g \<noteq> None"
  shows "lookup_all mapping gs = Inr (map (\<lambda>g. the (mapping g)) gs)"
  using assms by (induction gs) auto

lemma lookup_all_absent:
  assumes "\<exists>g \<in> set gs. mapping g = None"
  shows "\<exists>g \<in> set gs. mapping g = None \<and> lookup_all mapping gs = Inl (KeyError g)"
  using assms
proof (induction gs)
  case Nil
  then show ?case by simp
next
  case (Cons a gs)
  show ?case
  proof (cases "mapping a")
    case None
    then show ?thesis by simp
  next
    case (Some v)
    with Cons.prems have "\<exists>g \<in> set gs. mapping g = None" by auto
    from Cons.IH[OF this] obtain g where
      "g \<in> set gs" "mapping g = None" "lookup_all mapping gs = Inl (KeyError g)" by blast
    with Some show ?thesis by auto
  qed
qed

lemma py_map_lookup:
  assumes "length ks = length vs"
  shows "py_map ks vs = Inr (map_of (rev (zip ks vs)))"
    and "map_of (rev (zip ks vs)) k = None \<longleftrightarrow> k \<notin> set ks"
    and "map_of (rev (zip ks vs)) k = Some v \<Longrightarrow> \<exists>j < length ks. ks ! j = k \<and> vs ! j = v"
proof -
  show "py_map ks vs = Inr (map_of (rev (zip ks vs)))"
    using assms by (simp add: py_map_def)
  show "map_of (rev (zip ks vs)) k = None \<longleftrightarrow> k \<notin> set ks"
  proof -
    have "fst ` set (rev (zip ks vs)) = set (map fst (zip ks vs))" by simp
    also have "\<dots> = set ks" using assms by (simp only: map_fst_zip)
    finally show ?thesis by (simp only: map_of_eq_None_iff)
  qed
  assume "map_of (rev (zip ks vs)) k = Some v"
  then have "(k, v) \<in> set (zip ks vs)" by (auto dest: map_of_SomeD)
  then show "\<exists>j < length ks. ks ! j = k \<and> vs ! j = v"
    by (auto simp add: in_set_zip)
qed

text \<open>The lookup that \<open>subspace\<close> builds from a constructed map.\<close>

lemma subspace_lookup:
  assumes c: "construct wt gs ps sd lt muts nr lb = Inr p"
  shows "(if gpm_log_transform p then
                 (case gpm_Raw p of
                    None \<Rightarrow> Inl AttributeError
                  | Some raw \<Rightarrow>
                      (case py_map (gpm_genotypes p) (raw_phenotypes raw) of
                         Inl e \<Rightarrow> Inl e
                       | Inr mapping \<Rightarrow>
                           (case raw_stdeviations raw of
                              None \<Rightarrow> Inl AttributeError
                            | Some stdeviations \<Rightarrow> Inr (mapping, stdeviations))))
               else
                 (case py_map (gpm_genotypes p) (gpm_phenotypes p) of
                    Inl e \<Rightarrow> Inl e
                  | Inr mapping \<Rightarrow> Inr (mapping, gpm_stdeviations p)))
         = Inr (map_of (rev (zip gs ps)), sd)"
proof -
  note f = construct_Inr[OF c]
  have l: "length gs = length ps" using f by simp
  show ?thesis
  proof (cases lt)
    case True
    with f obtain raw where "gpm_Raw p = Some raw" "raw_phenotypes raw = ps"
      "raw_stdeviations raw = Some sd" by auto
    with True f show ?thesis by (simp add: py_map_lookup(1)[OF l])
  next
    case False
    with f show ?thesis by (simp add: py_map_lookup(1)[OF l])
  qed
qed

text \<open>
  Claim C3. Take a constructed parent map and two genotypes of the same length that differ
  at exactly \<open>k\<close> sites. When every genotype of the sub-lattice they span is a genotype
  of the parent, \<^verbatim>\<open>subspace(genotype1, genotype2)\<close> returns a map of exactly \<open>2\<^sup>k\<close>
  genotypes, which are the members of the sub-lattice, each once; its wildtype is
  \<open>genotype1\<close>, and its phenotype at each genotype is the parent's phenotype at a
  matching genotype. When some genotype of the sub-lattice is absent from the parent, the
  call fails with the \<open>KeyError\<close> of an absent genotype.
\<close>

theorem subspace_between_two_genotypes:
  assumes c: "construct wt gs ps sd lt muts nr lb = Inr p"
    and l: "length genotype1 = length genotype2"
    and k: "hamming_distance genotype1 genotype2 = k"
  shows "if sublattice genotype1 genotype2 \<subseteq> set (gpm_genotypes p)
         then \<exists>m. subspace p genotype1 genotype2 = Inr m \<and>
                  gpm_n m = 2 ^ k \<and> length (gpm_genotypes m) = 2 ^ k \<and>
                  length (gpm_phenotypes m) = 2 ^ k \<and>
                  distinct (gpm_genotypes m) \<and>
                  set (gpm_genotypes m) = sublattice genotype1 genotype2 \<and>
                  gpm_wildtype m = genotype1 \<and>
                  (\<forall>i < 2 ^ k. \<exists>j < gpm_n p.
                      gpm_genotypes p ! j = gpm_genotypes m ! i \<and>
                      gpm_phenotypes m ! i = gpm_phenotypes p ! j)
         else \<exists>g. g \<in> sublattice genotype1 genotype2 \<and> g \<notin> set (gpm_genotypes p) \<and>
                  subspace p genotype1 genotype2 = Inl (KeyError g)"
proof -
  note f = construct_Inr[OF c]
  define G where "G = construct_genotypes (site_alphabets genotype1 genotype2)"
  define mapping where "mapping = map_of (rev (zip gs ps))"
  have lg: "length gs = length ps" and gp: "gpm_genotypes p = gs" and np: "gpm_n p = length gs"
    using f by simp_all
  have sG: "set G = sublattice genotype1 genotype2"
    unfolding G_def by (rule construct_genotypes_sublattice[OF l])
  have lG: "length G = 2 ^ k"
    unfolding G_def using k by (simp add: length_construct_genotypes prod_site_alphabets[OF l])
  have dG: "distinct G"
    unfolding G_def by (rule distinct_construct_genotypes[OF distinct_site_alphabets])
  have nG: "G \<noteq> []" using lG by auto
  have sub: "subspace p genotype1 genotype2 =
               (case lookup_all mapping G of
                  Inl e \<Rightarrow> Inl e
                | Inr phenotypes \<Rightarrow>
                    construct genotype1 G phenotypes sd lt
                      (Some (binary_mutations_map genotype1 genotype2)) nr lb)"
  proof -
    have e: "gpm_log_transform p = lt" "gpm_n_replicates p = nr" "gpm_logbase p = lb"
      using f by simp_all
    show ?thesis
      unfolding subspace_def Let_def encode_binary_mutations_map subspace_lookup[OF c]
      unfolding sum.case prod.case e G_def mapping_def
      by (rule refl)
  qed
  show ?thesis
  proof (cases "sublattice genotype1 genotype2 \<subseteq> set (gpm_genotypes p)")
    case True
    then have "\<forall>g \<in> set G. mapping g \<noteq> None"
      using sG gp py_map_lookup(2)[OF lg] by (auto simp add: mapping_def)
    from lookup_all_found[OF this]
    have lk: "lookup_all mapping G = Inr (map (\<lambda>g. the (mapping g)) G)" .
    define P where "P = map (\<lambda>g. the (mapping g)) G"
    have lP: "length P = length G" by (simp add: P_def)
    from construct_succeeds[OF nG lP] obtain m where
      cm: "construct genotype1 G P sd lt (Some (binary_mutations_map genotype1 genotype2)) nr lb = Inr m"
      by blast
    note fm = construct_Inr[OF cm]
    have sm: "subspace p genotype1 genotype2 = Inr m"
      by (simp add: sub lk P_def[symmetric] cm)
    have ph: "\<exists>j < gpm_n p. gpm_genotypes p ! j = gpm_genotypes m ! i \<and>
                gpm_phenotypes m ! i = gpm_phenotypes p ! j" if i: "i < 2 ^ k" for i
    proof -
      from i lG have iG: "i < length G" by simp
      then have "G ! i \<in> set G" by simp
      with True sG gp have "mapping (G ! i) \<noteq> None"
        using py_map_lookup(2)[OF lg] by (auto simp add: mapping_def)
      then obtain v where v: "mapping (G ! i) = Some v" by auto
      from py_map_lookup(3)[OF lg v[unfolded mapping_def]] obtain j where
        j: "j < length gs" "gs ! j = G ! i" "ps ! j = v" by blast
      have "P ! i = v" using iG v by (simp add: P_def)
      with j have pj: "P ! i = ps ! j" by simp
      have "gpm_phenotypes m ! i = gpm_phenotypes p ! j"
        using f fm pj iG lP j lg by (cases lt) simp_all
      moreover have "gpm_genotypes p ! j = gpm_genotypes m ! i"
        using gp fm j by simp
      ultimately show ?thesis using j np by auto
    qed
    have "gpm_n m = 2 ^ k" "length (gpm_genotypes m) = 2 ^ k" "length (gpm_phenotypes m) = 2 ^ k"
      "distinct (gpm_genotypes m)" "set (gpm_genotypes m) = sublattice genotype1 genotype2"
      "gpm_wildtype m = genotype1"
      using fm lG lP dG sG by (simp_all split: if_splits)
    with sm ph True show ?thesis by auto
  next
    case False
    then have "\<exists>g \<in> set G. mapping g = None"
      using sG gp py_map_lookup(2)[OF lg] by (auto simp add: mapping_def)
    from lookup_all_absent[OF this] obtain g where
      g: "g \<in> set G" "mapping g = None" "lookup_all mapping G = Inl (KeyError g)" by blast
    from g(2) have "g \<notin> set (gpm_genotypes p)"
      using gp py_map_lookup(2)[OF lg] by (simp add: mapping_def)
    with g sG False show ?thesis by (auto simp add: sub)
  qed
qed

theorem subspace_between_two_genotypes_witness:
  "(\<exists>p m. construct ''AA'' [''AA'', ''AT'', ''TA'', ''TT''] [0, 1, 1, 2] None False None 1 (log 10) = Inr p \<and>
      hamming_distance ''AT'' ''TA'' = 2 \<and>
      subspace p ''AT'' ''TA'' = Inr m \<and>
      gpm_n m = 4 \<and> length (gpm_genotypes m) = 4 \<and>
      set (gpm_genotypes m) = {''AT'', ''AA'', ''TT'', ''TA''} \<and>
      gpm_wildtype m = ''AT'' \<and>
      (\<forall>i < 4. \<exists>j < 4. gpm_genotypes p ! j = gpm_genotypes m ! i \<and>
                       gpm_phenotypes m ! i = gpm_phenotypes p ! j)) \<and>
   (\<exists>q g. construct ''AA'' [''AA'', ''TT''] [0, 2] None False None 1 (log 10) = Inr q \<and>
      g \<notin> set [''AA'', ''TT''] \<and>
      subspace q ''AA'' ''TT'' = Inl (KeyError g))"
proof (rule conjI)
  have "\<exists>p. construct ''AA'' [''AA'', ''AT'', ''TA'', ''TT''] [0, 1, 1, 2] None False None 1 (log 10) = Inr p"
    by (rule construct_succeeds) simp_all
  then obtain p where
    c: "construct ''AA'' [''AA'', ''AT'', ''TA'', ''TT''] [0, 1, 1, 2] None False None 1 (log 10) = Inr p" ..
  have gp: "gpm_genotypes p = [''AA'', ''AT'', ''TA'', ''TT'']" "gpm_n p = 4"
    using construct_Inr[OF c] by simp_all
  have l: "length ''AT'' = length ''TA''" by simp
  have h: "hamming_distance ''AT'' ''TA'' = 2" by (simp add: hamming_distance_def)
  have s: "sublattice ''AT'' ''TA'' = {''AT'', ''AA'', ''TT'', ''TA''}"
    unfolding construct_genotypes_sublattice[OF l, symmetric] by auto
  have sub: "sublattice ''AT'' ''TA'' \<subseteq> set (gpm_genotypes p)"
    unfolding s gp by simp
  from subspace_between_two_genotypes[OF c l h] sub obtain m where
    m: "subspace p ''AT'' ''TA'' = Inr m" "gpm_n m = 2 ^ 2" "length (gpm_genotypes m) = 2 ^ 2"
      "set (gpm_genotypes m) = sublattice ''AT'' ''TA''" "gpm_wildtype m = ''AT''"
      "\<forall>i < 2 ^ 2. \<exists>j < gpm_n p. gpm_genotypes p ! j = gpm_genotypes m ! i \<and>
                      gpm_phenotypes m ! i = gpm_phenotypes p ! j"
    by (auto simp only: if_True)
  show "\<exists>p m. construct ''AA'' [''AA'', ''AT'', ''TA'', ''TT''] [0, 1, 1, 2] None False None 1 (log 10) = Inr p \<and>
      hamming_distance ''AT'' ''TA'' = 2 \<and>
      subspace p ''AT'' ''TA'' = Inr m \<and>
      gpm_n m = 4 \<and> length (gpm_genotypes m) = 4 \<and>
      set (gpm_genotypes m) = {''AT'', ''AA'', ''TT'', ''TA''} \<and>
      gpm_wildtype m = ''AT'' \<and>
      (\<forall>i < 4. \<exists>j < 4. gpm_genotypes p ! j = gpm_genotypes m ! i \<and>
                       gpm_phenotypes m ! i = gpm_phenotypes p ! j)"
    apply (rule exI[of _ p], rule exI[of _ m])
    using c h m s gp by simp
next
  have "\<exists>q. construct ''AA'' [''AA'', ''TT''] [0, 2] None False None 1 (log 10) = Inr q"
    by (rule construct_succeeds) simp_all
  then obtain q where
    c: "construct ''AA'' [''AA'', ''TT''] [0, 2] None False None 1 (log 10) = Inr q" ..
  have gq: "gpm_genotypes q = [''AA'', ''TT'']" using construct_Inr[OF c] by simp
  have l: "length ''AA'' = length ''TT''" by simp
  have s: "sublattice ''AA'' ''TT'' = {''AA'', ''AT'', ''TA'', ''TT''}"
    unfolding construct_genotypes_sublattice[OF l, symmetric] by auto
  have sub: "\<not> sublattice ''AA'' ''TT'' \<subseteq> set (gpm_genotypes q)"
    unfolding s gq by simp
  from subspace_between_two_genotypes[OF c l refl] sub obtain g where
    "g \<notin> set (gpm_genotypes q)" "subspace q ''AA'' ''TT'' = Inl (KeyError g)"
    by (auto simp only: if_False)
  with c gq show "\<exists>q g. construct ''AA'' [''AA'', ''TT''] [0, 2] None False None 1 (log 10) = Inr q \<and>
      g \<notin> set [''AA'', ''TT''] \<and> subspace q ''AA'' ''TT'' = Inl (KeyError g)"
    by auto
qed

end
